theory Spec2Isabelle
  imports
    Complex_Main
    "HOL-Library.Char_ord"
    "HOL-Library.List_Lexorder"
    "HOL-Library.Product_Lexorder"
    "HOL-Library.Multiset"
    "HOL-Library.Word"
begin

section \<open>The animals of Substance.cpp\<close>

text \<open>
  The class hierarchy below \<open>Animal\<close> is closed: seven concrete classes. An object is its
  dynamic class together with the two fields of \<open>Animal\<close>. The field \<open>daysLived\<close> is a C++
  \<open>int\<close>: a 32-bit word read in two's complement (\<open>sint\<close>). Addition and multiplication
  wrap around, as they do in the compiled program; \<open>CREATE\<close> reads the value with \<open>stoi\<close>,
  which yields every value of the type and no other.
\<close>

type_synonym cpp_int = "32 word"

datatype Kind = Fish | Bird | Mouse | BetterFish | BetterBird | BetterMouse | Monster

record Animal =
  kind :: Kind
  name :: string
  daysLived :: cpp_int

fun getTypeCode :: "Kind \<Rightarrow> string" where
  "getTypeCode Fish = ''F''"
| "getTypeCode Bird = ''B''"
| "getTypeCode Mouse = ''M''"
| "getTypeCode BetterFish = ''BF''"
| "getTypeCode BetterBird = ''BB''"
| "getTypeCode BetterMouse = ''BM''"
| "getTypeCode Monster = ''MONSTER''"

fun getTypeName :: "Kind \<Rightarrow> string" where
  "getTypeName Fish = ''Fish''"
| "getTypeName Bird = ''Bird''"
| "getTypeName Mouse = ''Mouse''"
| "getTypeName BetterFish = ''BetterFish''"
| "getTypeName BetterBird = ''BetterBird''"
| "getTypeName BetterMouse = ''BetterMouse''"
| "getTypeName Monster = ''Monster''"

fun isNormalK :: "Kind \<Rightarrow> bool" where
  "isNormalK Fish = True"
| "isNormalK Bird = True"
| "isNormalK Mouse = True"
| "isNormalK k = False"

fun isBetterK :: "Kind \<Rightarrow> bool" where
  "isBetterK BetterFish = True"
| "isBetterK BetterBird = True"
| "isBetterK BetterMouse = True"
| "isBetterK k = False"

fun isMonsterK :: "Kind \<Rightarrow> bool" where
  "isMonsterK Monster = True"
| "isMonsterK k = False"

definition isNormal :: "Animal \<Rightarrow> bool" where
  "isNormal a = isNormalK (kind a)"

definition isBetter :: "Animal \<Rightarrow> bool" where
  "isBetter a = isBetterK (kind a)"

definition isMonster :: "Animal \<Rightarrow> bool" where
  "isMonster a = isMonsterK (kind a)"

text \<open>
  The quotient of C++ on \<open>int\<close>: the exact quotient of the two signed values with its
  fraction dropped (truncation towards zero), as a 32-bit word.
\<close>

definition cpp_div :: "cpp_int \<Rightarrow> cpp_int \<Rightarrow> cpp_int" where
  "cpp_div a b = word_of_int (sgn (sint a) * sgn (sint b) * (\<bar>sint a\<bar> div \<bar>sint b\<bar>))"

text \<open>
  The converting constructors \<open>BetterFish(const Fish &)\<close>, \<open>BetterBird(const Bird &)\<close> and
  \<open>BetterMouse(const Mouse &)\<close>: the name is copied and the days are set to
  \<open>(getDaysLived() + 1) / 2\<close>. \<open>Monster(const Animal &)\<close> copies the name and sets the
  days to 1.
\<close>

definition BetterOf :: "Kind \<Rightarrow> Animal \<Rightarrow> Animal" where
  "BetterOf k a = \<lparr>kind = k, name = name a, daysLived = cpp_div (daysLived a + 1) 2\<rparr>"

definition MonsterOf :: "Animal \<Rightarrow> Animal" where
  "MonsterOf a = \<lparr>kind = Monster, name = name a, daysLived = 1\<rparr>"

definition incrementDay :: "Animal \<Rightarrow> Animal" where
  "incrementDay a = a\<lparr>daysLived := daysLived a + 1\<rparr>"

section \<open>Output\<close>

text \<open>
  Every line the program writes to \<open>cout\<close>, one constructor per format:
  \<^item> \<open>MyNameIs n d\<close>: \<^verbatim>\<open>My name is <n>, days lived: <d>\<close> (\<open>sayName\<close>);
  \<^item> \<open>IsAttacking t\<close>: \<^verbatim>\<open><t> is attacking\<close> (\<open>attack\<close>, with the type name);
  \<^item> \<open>HasDied n\<close>: \<^verbatim>\<open><n> has died of old days\<close>;
  \<^item> \<open>AnimalNotFound\<close>: \<^verbatim>\<open>Animal not found\<close>;
  \<^item> \<open>InvalidSubstanceRemoval\<close>: \<^verbatim>\<open>Invalid substance removal\<close>;
  \<^item> \<open>SubstanceCannotBeAppliedInFreedom\<close>: \<^verbatim>\<open>Substance cannot be applied in freedom\<close>;
  \<^item> \<open>SubstanceCannotBeRemovedInFreedom\<close>: \<^verbatim>\<open>Substance cannot be removed in freedom\<close>;
  \<^item> \<open>AnimalsCannotAttackInFreedom\<close>: \<^verbatim>\<open>Animals cannot attack in Freedom\<close>.
\<close>

datatype Line =
    MyNameIs string int
  | IsAttacking string
  | HasDied string
  | AnimalNotFound
  | InvalidSubstanceRemoval
  | SubstanceCannotBeAppliedInFreedom
  | SubstanceCannotBeRemovedInFreedom
  | AnimalsCannotAttackInFreedom

definition sayName :: "Animal \<Rightarrow> Line" where
  "sayName a = MyNameIs (name a) (sint (daysLived a))"

definition attack :: "Animal \<Rightarrow> Animal \<Rightarrow> Line" where
  "attack a other = IsAttacking (getTypeName (kind a))"

section \<open>ContainerBase\<close>

text \<open>
  \<open>SortAnimals\<close> is the comparator of the source; strings compare as in C++,
  lexicographically by character code. \<open>stable_sort\<close> stands for \<open>std::stable_sort\<close>:
  its result is the permutation of the input that is sorted for the comparator and keeps
  equivalent elements in their input order. It is computed here by inserting each element,
  from the last to the first, in front of the first element that is not below it.
\<close>

fun insert_sorted :: "('a \<Rightarrow> 'a \<Rightarrow> bool) \<Rightarrow> 'a \<Rightarrow> 'a list \<Rightarrow> 'a list" where
  "insert_sorted cmp x [] = [x]"
| "insert_sorted cmp x (y # ys) =
     (if cmp y x then y # insert_sorted cmp x ys else x # y # ys)"

fun stable_sort :: "('a \<Rightarrow> 'a \<Rightarrow> bool) \<Rightarrow> 'a list \<Rightarrow> 'a list" where
  "stable_sort cmp [] = []"
| "stable_sort cmp (x # xs) = insert_sorted cmp x (stable_sort cmp xs)"

definition SortAnimals :: "Animal \<Rightarrow> Animal \<Rightarrow> bool" where
  "SortAnimals firstAnimal secondAnimal =
     (if daysLived firstAnimal \<noteq> daysLived secondAnimal
      then sint (daysLived firstAnimal) < sint (daysLived secondAnimal)
      else name firstAnimal < name secondAnimal)"

definition update :: "Animal list \<Rightarrow> Animal list" where
  "update animals = stable_sort SortAnimals animals"

definition add :: "Animal list \<Rightarrow> Animal \<Rightarrow> Animal list" where
  "add animals animal = update (animals @ [animal])"

definition size_c :: "Animal list \<Rightarrow> int" where
  "size_c animals = int (length animals)"

definition get :: "Animal list \<Rightarrow> int \<Rightarrow> Animal option" where
  "get animals idx =
     (if idx < 0 \<or> idx \<ge> int (length animals) then None else Some (animals ! nat idx))"

text \<open>\<open>animals.erase(animals.begin() + idx)\<close> for an index in range.\<close>

definition erase_at :: "nat \<Rightarrow> 'a list \<Rightarrow> 'a list" where
  "erase_at idx xs = take idx xs @ drop (Suc idx) xs"

definition removeByIndex :: "Animal list \<Rightarrow> int \<Rightarrow> Animal list \<times> Animal option" where
  "removeByIndex animals idx =
     (if idx < 0 \<or> idx \<ge> int (length animals) then (animals, None)
      else (update (erase_at (nat idx) animals), Some (animals ! nat idx)))"

text \<open>
  The first loop of \<open>incrementDays\<close>, from index \<open>i\<close> on: every animal is aged by one day,
  and the index of each animal over its limit is pushed on \<open>dead\<close> with its line printed.
  The result is the aged animals, the indices pushed and the lines printed.
\<close>

fun incrementDays_scan :: "nat \<Rightarrow> Animal list \<Rightarrow> Animal list \<times> nat list \<times> Line list" where
  "incrementDays_scan i [] = ([], [], [])"
| "incrementDays_scan i (a # rest) =
     (let a' = incrementDay a;
          (rest', dead, out) = incrementDays_scan (Suc i) rest
      in if isMonster a' \<and> sint (daysLived a') > 1 then (a' # rest', i # dead, HasDied (name a') # out)
         else if \<not> isMonster a' \<and> sint (daysLived a') > 10 then (a' # rest', i # dead, HasDied (name a') # out)
         else (a' # rest', dead, out))"

text \<open>The second loop: the indices in \<open>dead\<close> are erased from the last one to the first.\<close>

definition erase_dead :: "nat list \<Rightarrow> Animal list \<Rightarrow> Animal list" where
  "erase_dead dead animals = fold erase_at (rev dead) animals"

definition incrementDays :: "Animal list \<Rightarrow> Animal list \<times> Line list" where
  "incrementDays animals =
     (let (aged, dead, out) = incrementDays_scan 0 animals
      in (update (erase_dead dead aged), out))"

definition clear :: "Animal list \<Rightarrow> Animal list \<times> Line list" where
  "clear animals = ([], map (\<lambda>animal. HasDied (name animal)) animals)"

section \<open>Manager\<close>

record Manager =
  cageBird :: "Animal list"
  cageBetterBird :: "Animal list"
  cageMouse :: "Animal list"
  cageBetterMouse :: "Animal list"
  aquariumFish :: "Animal list"
  aquariumBetterFish :: "Animal list"
  aquariumMouse :: "Animal list"
  aquariumBetterMouse :: "Animal list"
  freedom :: "Animal list"

text \<open>The state of a freshly constructed \<open>Manager\<close>: every container is empty.\<close>

definition init :: Manager where
  "init = \<lparr>cageBird = [], cageBetterBird = [], cageMouse = [], cageBetterMouse = [],
           aquariumFish = [], aquariumBetterFish = [], aquariumMouse = [],
           aquariumBetterMouse = [], freedom = []\<rparr>"

text \<open>
  \<open>pickContainer\<close> returns the address of one of the nine members, or \<open>nullptr\<close>. An
  address is a value of \<open>ContainerRef\<close>; \<open>getC\<close> reads the container behind it and \<open>setC\<close>
  writes it.
\<close>

datatype ContainerRef =
    RefCageBird | RefCageBetterBird | RefCageMouse | RefCageBetterMouse
  | RefAquariumFish | RefAquariumBetterFish | RefAquariumMouse | RefAquariumBetterMouse
  | RefFreedom

fun getC :: "ContainerRef \<Rightarrow> Manager \<Rightarrow> Animal list" where
  "getC RefCageBird m = cageBird m"
| "getC RefCageBetterBird m = cageBetterBird m"
| "getC RefCageMouse m = cageMouse m"
| "getC RefCageBetterMouse m = cageBetterMouse m"
| "getC RefAquariumFish m = aquariumFish m"
| "getC RefAquariumBetterFish m = aquariumBetterFish m"
| "getC RefAquariumMouse m = aquariumMouse m"
| "getC RefAquariumBetterMouse m = aquariumBetterMouse m"
| "getC RefFreedom m = freedom m"

fun setC :: "ContainerRef \<Rightarrow> Animal list \<Rightarrow> Manager \<Rightarrow> Manager" where
  "setC RefCageBird xs m = m\<lparr>cageBird := xs\<rparr>"
| "setC RefCageBetterBird xs m = m\<lparr>cageBetterBird := xs\<rparr>"
| "setC RefCageMouse xs m = m\<lparr>cageMouse := xs\<rparr>"
| "setC RefCageBetterMouse xs m = m\<lparr>cageBetterMouse := xs\<rparr>"
| "setC RefAquariumFish xs m = m\<lparr>aquariumFish := xs\<rparr>"
| "setC RefAquariumBetterFish xs m = m\<lparr>aquariumBetterFish := xs\<rparr>"
| "setC RefAquariumMouse xs m = m\<lparr>aquariumMouse := xs\<rparr>"
| "setC RefAquariumBetterMouse xs m = m\<lparr>aquariumBetterMouse := xs\<rparr>"
| "setC RefFreedom xs m = m\<lparr>freedom := xs\<rparr>"

definition pickContainer :: "string \<Rightarrow> string \<Rightarrow> ContainerRef option" where
  "pickContainer cont typeCode =
     (if cont = ''Freedom'' then Some RefFreedom
      else if cont = ''Cage'' then
        (if typeCode = ''B'' then Some RefCageBird
         else if typeCode = ''BB'' then Some RefCageBetterBird
         else if typeCode = ''M'' then Some RefCageMouse
         else if typeCode = ''BM'' then Some RefCageBetterMouse
         else None)
      else if cont = ''Aquarium'' then
        (if typeCode = ''F'' then Some RefAquariumFish
         else if typeCode = ''BF'' then Some RefAquariumBetterFish
         else if typeCode = ''M'' then Some RefAquariumMouse
         else if typeCode = ''BM'' then Some RefAquariumBetterMouse
         else None)
      else None)"

definition makeAnimal :: "string \<Rightarrow> string \<Rightarrow> cpp_int \<Rightarrow> Animal option" where
  "makeAnimal type n d =
     (if type = ''M'' then Some \<lparr>kind = Mouse, name = n, daysLived = d\<rparr>
      else if type = ''B'' then Some \<lparr>kind = Bird, name = n, daysLived = d\<rparr>
      else if type = ''F'' then Some \<lparr>kind = Fish, name = n, daysLived = d\<rparr>
      else if type = ''BM'' then Some \<lparr>kind = BetterMouse, name = n, daysLived = d\<rparr>
      else if type = ''BB'' then Some \<lparr>kind = BetterBird, name = n, daysLived = d\<rparr>
      else if type = ''BF'' then Some \<lparr>kind = BetterFish, name = n, daysLived = d\<rparr>
      else None)"

text \<open>Every handler takes the manager and returns it with the lines it printed.\<close>

definition incrementDays_in :: "ContainerRef \<Rightarrow> Manager \<times> Line list \<Rightarrow> Manager \<times> Line list" where
  "incrementDays_in r s =
     (let (m, out) = s; (animals, out') = incrementDays (getC r m)
      in (setC r animals m, out @ out'))"

definition doPeriod :: "Manager \<Rightarrow> Manager \<times> Line list" where
  "doPeriod m =
     (incrementDays_in RefFreedom
     (incrementDays_in RefAquariumBetterMouse
     (incrementDays_in RefAquariumMouse
     (incrementDays_in RefAquariumBetterFish
     (incrementDays_in RefAquariumFish
     (incrementDays_in RefCageBetterMouse
     (incrementDays_in RefCageMouse
     (incrementDays_in RefCageBetterBird
     (incrementDays_in RefCageBird (m, []))))))))))"

definition handleCreate :: "Manager \<Rightarrow> string \<Rightarrow> string \<Rightarrow> string \<Rightarrow> cpp_int \<Rightarrow> Manager \<times> Line list" where
  "handleCreate m type n cont d =
     (case makeAnimal type n d of
        None \<Rightarrow> (m, [])
      | Some animal \<Rightarrow>
          if cont = ''Freedom'' then (m\<lparr>freedom := add (freedom m) animal\<rparr>, [sayName animal])
          else (case pickContainer cont type of
                  Some c \<Rightarrow> (setC c (add (getC c m) animal) m, [sayName animal])
                | None \<Rightarrow> (m, [sayName animal])))"

definition handleApplySubstanceFreedom :: "Manager \<Rightarrow> int \<Rightarrow> Manager \<times> Line list" where
  "handleApplySubstanceFreedom m pos = (m, [SubstanceCannotBeAppliedInFreedom])"

text \<open>
  The \<open>if\<close>/\<open>else if\<close> chain on \<open>getTypeCode\<close> that builds the better animal; \<open>None\<close> is
  the \<open>nullptr\<close> left in \<open>better\<close> when no branch is taken.
\<close>

definition makeBetter :: "Animal \<Rightarrow> Animal option" where
  "makeBetter oldAnimal =
     (if getTypeCode (kind oldAnimal) = ''M'' then Some (BetterOf BetterMouse oldAnimal)
      else if getTypeCode (kind oldAnimal) = ''B'' then Some (BetterOf BetterBird oldAnimal)
      else if getTypeCode (kind oldAnimal) = ''F'' then Some (BetterOf BetterFish oldAnimal)
      else None)"

definition handleApplySubstance :: "Manager \<Rightarrow> string \<Rightarrow> string \<Rightarrow> int \<Rightarrow> Manager \<times> Line list" where
  "handleApplySubstance m cont type pos =
     (if cont = ''Freedom'' then handleApplySubstanceFreedom m pos
      else case pickContainer cont type of
        None \<Rightarrow> (m, [AnimalNotFound])
      | Some c \<Rightarrow>
          if pos < 0 \<or> pos \<ge> size_c (getC c m) then (m, [AnimalNotFound])
          else (case get (getC c m) pos of
            None \<Rightarrow> (m, [AnimalNotFound])
          | Some oldAnimal \<Rightarrow>
              if isMonster oldAnimal then (m, [AnimalNotFound])
              else
                let m1 = setC c (fst (removeByIndex (getC c m) pos)) m
                in if isNormal oldAnimal then
                     (case makeBetter oldAnimal of
                        None \<Rightarrow> (m1, [])
                      | Some better \<Rightarrow>
                          (case pickContainer cont (getTypeCode (kind better)) of
                             Some newC \<Rightarrow> (setC newC (add (getC newC m1) better) m1, [])
                           | None \<Rightarrow> (m1, [])))
                   else if isBetter oldAnimal then
                     (let mon = MonsterOf oldAnimal;
                          (emptied, out) = clear (getC c m1);
                          m2 = setC c emptied m1
                      in (m2\<lparr>freedom := add (freedom m2) mon\<rparr>, out))
                   else (m1, [])))"

definition handleRemoveSubstanceFreedom :: "Manager \<Rightarrow> int \<Rightarrow> Manager \<times> Line list" where
  "handleRemoveSubstanceFreedom m pos = (m, [SubstanceCannotBeRemovedInFreedom])"

definition makeNormal :: "Animal \<Rightarrow> Animal option" where
  "makeNormal oldAnimal =
     (if getTypeCode (kind oldAnimal) = ''BM''
      then Some \<lparr>kind = Mouse, name = name oldAnimal, daysLived = daysLived oldAnimal * 2\<rparr>
      else if getTypeCode (kind oldAnimal) = ''BB''
      then Some \<lparr>kind = Bird, name = name oldAnimal, daysLived = daysLived oldAnimal * 2\<rparr>
      else if getTypeCode (kind oldAnimal) = ''BF''
      then Some \<lparr>kind = Fish, name = name oldAnimal, daysLived = daysLived oldAnimal * 2\<rparr>
      else None)"

definition handleRemoveSubstance :: "Manager \<Rightarrow> string \<Rightarrow> string \<Rightarrow> int \<Rightarrow> Manager \<times> Line list" where
  "handleRemoveSubstance m cont type pos =
     (if cont = ''Freedom'' then handleRemoveSubstanceFreedom m pos
      else case pickContainer cont type of
        None \<Rightarrow> (m, [AnimalNotFound])
      | Some c \<Rightarrow>
          if pos < 0 \<or> pos \<ge> size_c (getC c m) then (m, [AnimalNotFound])
          else (case get (getC c m) pos of
            None \<Rightarrow> (m, [InvalidSubstanceRemoval])
          | Some oldAnimal \<Rightarrow>
              if \<not> isBetter oldAnimal then (m, [InvalidSubstanceRemoval])
              else
                let m1 = setC c (fst (removeByIndex (getC c m) pos)) m
                in (case makeNormal oldAnimal of
                      None \<Rightarrow> (m1, [])
                    | Some normal \<Rightarrow>
                        (case pickContainer cont (getTypeCode (kind normal)) of
                           Some newC \<Rightarrow> (setC newC (add (getC newC m1) normal) m1, [])
                         | None \<Rightarrow> (m1, [])))))"

definition handleAttackFreedom :: "Manager \<Rightarrow> int \<Rightarrow> int \<Rightarrow> Manager \<times> Line list" where
  "handleAttackFreedom m pos1 pos2 = (m, [AnimalsCannotAttackInFreedom])"

definition handleAttack :: "Manager \<Rightarrow> string \<Rightarrow> string \<Rightarrow> int \<Rightarrow> int \<Rightarrow> Manager \<times> Line list" where
  "handleAttack m container type pos1 pos2 =
     (if container = ''Freedom'' then handleAttackFreedom m pos1 pos2
      else case pickContainer container type of
        None \<Rightarrow> (m, [AnimalNotFound])
      | Some c \<Rightarrow>
          if pos1 < 0 \<or> pos1 \<ge> size_c (getC c m) \<or> pos2 < 0 \<or> pos2 \<ge> size_c (getC c m)
             \<or> pos1 = pos2
          then (m, [AnimalNotFound])
          else (case (get (getC c m) pos1, get (getC c m) pos2) of
                  (Some attacker, Some target) \<Rightarrow>
                    (setC c (fst (removeByIndex (getC c m) pos2)) m, [attack attacker target])
                | _ \<Rightarrow> (m, [AnimalNotFound])))"

definition handleTalkFreedom :: "Manager \<Rightarrow> int \<Rightarrow> Manager \<times> Line list" where
  "handleTalkFreedom m pos =
     (if pos < 0 \<or> pos \<ge> size_c (freedom m) then (m, [AnimalNotFound])
      else case get (freedom m) pos of
             Some a \<Rightarrow> (m, [sayName a])
           | None \<Rightarrow> (m, [AnimalNotFound]))"

definition handleTalk :: "Manager \<Rightarrow> string \<Rightarrow> string \<Rightarrow> int \<Rightarrow> Manager \<times> Line list" where
  "handleTalk m container type pos =
     (if container = ''Freedom'' then handleTalkFreedom m pos
      else case pickContainer container type of
        None \<Rightarrow> (m, [AnimalNotFound])
      | Some c \<Rightarrow>
          if pos < 0 \<or> pos \<ge> size_c (getC c m) then (m, [AnimalNotFound])
          else (case get (getC c m) pos of
                  None \<Rightarrow> (m, [AnimalNotFound])
                | Some animal \<Rightarrow> (m, [sayName animal])))"

section \<open>Commands\<close>

text \<open>
  The calls \<open>main\<close> makes on the manager, one constructor per call, with the arguments
  \<open>main\<close> has parsed from the line.
\<close>

datatype Command =
    Create string string string cpp_int
  | ApplySubstanceFreedom int
  | ApplySubstance string string int
  | RemoveSubstanceFreedom int
  | RemoveSubstance string string int
  | AttackFreedom int int
  | Attack string string int int
  | TalkFreedom int
  | Talk string string int
  | Period

fun exec :: "Manager \<Rightarrow> Command \<Rightarrow> Manager \<times> Line list" where
  "exec m (Create type n cont d) = handleCreate m type n cont d"
| "exec m (ApplySubstanceFreedom pos) = handleApplySubstanceFreedom m pos"
| "exec m (ApplySubstance cont type pos) = handleApplySubstance m cont type pos"
| "exec m (RemoveSubstanceFreedom pos) = handleRemoveSubstanceFreedom m pos"
| "exec m (RemoveSubstance cont type pos) = handleRemoveSubstance m cont type pos"
| "exec m (AttackFreedom pos1 pos2) = handleAttackFreedom m pos1 pos2"
| "exec m (Attack cont type pos1 pos2) = handleAttack m cont type pos1 pos2"
| "exec m (TalkFreedom pos) = handleTalkFreedom m pos"
| "exec m (Talk cont type pos) = handleTalk m cont type pos"
| "exec m Period = doPeriod m"

text \<open>The states the program can be in: the initial one and every state a command leaves.\<close>

inductive reachable :: "Manager \<Rightarrow> bool" where
  reachable_init: "reachable init"
| reachable_exec: "reachable m \<Longrightarrow> reachable (fst (exec m cmd))"

section \<open>Predicates used to state the properties\<close>

text \<open>
  The death rule of the specification: an animal has outlived its stage when its age is
  above 1 for a Monster and above 10 for every other stage. It is compared below with the
  two tests in the loop of \<open>incrementDays\<close>.
\<close>

definition dies :: "Animal \<Rightarrow> bool" where
  "dies a = (if isMonster a then sint (daysLived a) > 1 else sint (daysLived a) > 10)"

text \<open>
  The key that \<open>SortAnimals\<close> compares: with it, \<open>update\<close> is the stable sort by key of the
  library (lemma \<open>update_sort_key\<close>).
\<close>

definition sort_key_of :: "Animal \<Rightarrow> int \<times> string" where
  "sort_key_of a = (sint (daysLived a), name a)"

text \<open>Ascending by days lived, ties broken by name ascending.\<close>

definition ordered :: "Animal list \<Rightarrow> bool" where
  "ordered xs =
     sorted_wrt (\<lambda>a b. sint (daysLived a) < sint (daysLived b)
                     \<or> (daysLived a = daysLived b \<and> name a \<le> name b)) xs"

text \<open>
  The class each member of \<open>Manager\<close> is declared for: \<open>Cage<Bird> cageBird\<close> and so on.
  The vector behind every container holds \<open>Animal*\<close>, so the declaration alone excludes
  nothing; that the contents agree with it is an invariant of the handlers.
\<close>

fun admits :: "ContainerRef \<Rightarrow> Kind \<Rightarrow> bool" where
  "admits RefCageBird k = (k = Bird)"
| "admits RefCageBetterBird k = (k = BetterBird)"
| "admits RefCageMouse k = (k = Mouse)"
| "admits RefCageBetterMouse k = (k = BetterMouse)"
| "admits RefAquariumFish k = (k = Fish)"
| "admits RefAquariumBetterFish k = (k = BetterFish)"
| "admits RefAquariumMouse k = (k = Mouse)"
| "admits RefAquariumBetterMouse k = (k = BetterMouse)"
| "admits RefFreedom k = True"

definition ok :: "ContainerRef \<Rightarrow> Animal list \<Rightarrow> bool" where
  "ok r xs = (ordered xs \<and> list_all (\<lambda>a. admits r (kind a)) xs)"

definition consistent :: "Manager \<Rightarrow> bool" where
  "consistent m = (\<forall>r. ok r (getC r m))"

text \<open>The lines that report a rejected command.\<close>

fun is_failure :: "Line \<Rightarrow> bool" where
  "is_failure AnimalNotFound = True"
| "is_failure InvalidSubstanceRemoval = True"
| "is_failure SubstanceCannotBeAppliedInFreedom = True"
| "is_failure SubstanceCannotBeRemovedInFreedom = True"
| "is_failure AnimalsCannotAttackInFreedom = True"
| "is_failure l = False"

text \<open>The order in which \<open>doPeriod\<close> visits the containers.\<close>

definition period_order :: "ContainerRef list" where
  "period_order = [RefCageBird, RefCageBetterBird, RefCageMouse, RefCageBetterMouse,
     RefAquariumFish, RefAquariumBetterFish, RefAquariumMouse, RefAquariumBetterMouse, RefFreedom]"

text \<open>
  The class derived from each normal class (\<open>class BetterFish : public Fish\<close> and so on),
  and back; every other class is left as it is.
\<close>

fun betterKind :: "Kind \<Rightarrow> Kind" where
  "betterKind Fish = BetterFish"
| "betterKind Bird = BetterBird"
| "betterKind Mouse = BetterMouse"
| "betterKind k = k"

fun normalKind :: "Kind \<Rightarrow> Kind" where
  "normalKind BetterFish = Fish"
| "normalKind BetterBird = Bird"
| "normalKind BetterMouse = Mouse"
| "normalKind k = k"

text \<open>
  For each container declared for a normal class, the container of the same habitat
  declared for the class derived from it.
\<close>

fun betterRef :: "ContainerRef \<Rightarrow> ContainerRef option" where
  "betterRef RefCageBird = Some RefCageBetterBird"
| "betterRef RefCageMouse = Some RefCageBetterMouse"
| "betterRef RefAquariumFish = Some RefAquariumBetterFish"
| "betterRef RefAquariumMouse = Some RefAquariumBetterMouse"
| "betterRef r = None"

text \<open>States of three short runs, used as concrete inputs below.\<close>

definition mouse_in_cage :: "cpp_int \<Rightarrow> Manager" where
  "mouse_in_cage d = fst (exec init (Create ''M'' ''Jerry'' ''Cage'' d))"

definition two_better_fish :: Manager where
  "two_better_fish =
     fst (exec (fst (exec init (Create ''BF'' ''Nemo'' ''Aquarium'' 2)))
       (Create ''BF'' ''Dory'' ''Aquarium'' 3))"

definition two_birds :: Manager where
  "two_birds =
     fst (exec (fst (exec init (Create ''B'' ''Tweety'' ''Cage'' 2)))
       (Create ''B'' ''Polly'' ''Cage'' 2))"


section \<open>The sort of the containers\<close>

lemma sint_eq_iff: "sint a = sint b \<longleftrightarrow> a = b" for a b :: cpp_int
  by (auto intro: signed_word_eqI)

lemma SortAnimals_key: "SortAnimals a b \<longleftrightarrow> sort_key_of a < sort_key_of b"
  unfolding SortAnimals_def sort_key_of_def less_prod_def
  using sint_eq_iff [of "daysLived a" "daysLived b"] by auto

lemma insert_sorted_insort:
  "insert_sorted SortAnimals x ys = insort_key sort_key_of x ys"
  by (induction ys) (auto simp: SortAnimals_key)

lemma update_sort_key: "update xs = sort_key sort_key_of xs"
  unfolding update_def
  by (induction xs) (simp_all add: insert_sorted_insort sort_key_simps)

text \<open>The definitions a concrete run of the handlers unfolds.\<close>

lemmas handler_defs = handleCreate_def init_def makeAnimal_def pickContainer_def add_def update_sort_key
  handleApplySubstance_def handleApplySubstanceFreedom_def handleRemoveSubstance_def
  handleRemoveSubstanceFreedom_def handleAttack_def handleAttackFreedom_def
  get_def size_c_def removeByIndex_def erase_at_def isMonster_def isNormal_def isBetter_def
  makeBetter_def makeNormal_def BetterOf_def MonsterOf_def cpp_div_def sayName_def attack_def
  clear_def

section \<open>The loops of incrementDays\<close>

lemma scan_aged: "fst (incrementDays_scan i xs) = map incrementDay xs"
proof (induction xs arbitrary: i)
  case Nil
  then show ?case by simp
next
  case (Cons a rest)
  obtain aged dead out where scan: "incrementDays_scan (Suc i) rest = (aged, dead, out)"
    by (cases "incrementDays_scan (Suc i) rest") auto
  with Cons.IH [of "Suc i"] have "aged = map incrementDay rest" by simp
  with scan show ?case by (simp add: Let_def)
qed

lemma scan_out:
  "snd (snd (incrementDays_scan i xs)) = map (\<lambda>a. HasDied (name a)) (filter dies (map incrementDay xs))"
proof (induction xs arbitrary: i)
  case Nil
  then show ?case by simp
next
  case (Cons a rest)
  obtain aged dead out where scan: "incrementDays_scan (Suc i) rest = (aged, dead, out)"
    by (cases "incrementDays_scan (Suc i) rest") auto
  with Cons.IH [of "Suc i"]
  have "out = map (\<lambda>a. HasDied (name a)) (filter dies (map incrementDay rest))" by simp
  with scan show ?case
    by (cases "isMonster (incrementDay a)") (simp_all add: Let_def dies_def [of "incrementDay a"])
qed

lemma erase_at_append: "erase_at (length pre) (pre @ a # rest) = pre @ rest"
  by (simp add: erase_at_def)

lemma scan_erase:
  "erase_dead (fst (snd (incrementDays_scan (length pre) xs))) (pre @ map incrementDay xs)
     = pre @ filter (\<lambda>a. \<not> dies a) (map incrementDay xs)"
proof (induction xs arbitrary: pre)
  case Nil
  then show ?case by (simp add: erase_dead_def)
next
  case (Cons a rest)
  obtain aged dead out where scan: "incrementDays_scan (Suc (length pre)) rest = (aged, dead, out)"
    by (cases "incrementDays_scan (Suc (length pre)) rest") auto
  have ih: "erase_dead dead ((pre @ [incrementDay a]) @ map incrementDay rest)
              = (pre @ [incrementDay a]) @ filter (\<lambda>a. \<not> dies a) (map incrementDay rest)"
    using Cons.IH [of "pre @ [incrementDay a]"] scan by simp
  show ?case
  proof (cases "dies (incrementDay a)")
    case True
    then have "fst (snd (incrementDays_scan (length pre) (a # rest))) = length pre # dead"
      using scan by (auto simp: dies_def Let_def)
    then show ?thesis using ih True
      by (simp add: erase_dead_def erase_at_append)
  next
    case False
    then have "fst (snd (incrementDays_scan (length pre) (a # rest))) = dead"
      using scan by (auto simp: dies_def Let_def split: if_splits)
    then show ?thesis using ih False by simp
  qed
qed

lemma incrementDays_eq:
  "incrementDays xs =
     (update (filter (\<lambda>a. \<not> dies a) (map incrementDay xs)),
      map (\<lambda>a. HasDied (name a)) (filter dies (map incrementDay xs)))"
proof -
  obtain aged dead out where scan: "incrementDays_scan 0 xs = (aged, dead, out)"
    by (cases "incrementDays_scan 0 xs") auto
  have "aged = map incrementDay xs" using scan_aged [of 0 xs] scan by simp
  moreover have "out = map (\<lambda>a. HasDied (name a)) (filter dies (map incrementDay xs))"
    using scan_out [of 0 xs] scan by simp
  moreover have "erase_dead dead (map incrementDay xs) = filter (\<lambda>a. \<not> dies a) (map incrementDay xs)"
    using scan_erase [of "[]" xs] scan by simp
  ultimately show ?thesis using scan by (simp add: incrementDays_def)
qed


section \<open>Sorting, containers and the invariant\<close>

lemma getC_setC: "getC r (setC r' xs m) = (if r = r' then xs else getC r m)"
  by (cases r; cases r'; simp)

lemma freedom_upd: "m\<lparr>freedom := xs\<rparr> = setC RefFreedom xs m"
  by simp

lemma setC_getC: "setC r (getC r m) m = m"
  by (cases r; simp)

lemma ordered_sorted: "ordered xs \<longleftrightarrow> sorted (map sort_key_of xs)"
proof -
  have "(\<lambda>a b. sint (daysLived a) < sint (daysLived b)
                \<or> (daysLived a = daysLived b \<and> name a \<le> name b))
          = (\<lambda>a b. sort_key_of a \<le> sort_key_of b)"
    by (auto simp: fun_eq_iff sort_key_of_def less_eq_prod_def sint_eq_iff)
  then show ?thesis by (simp add: ordered_def sorted_map)
qed

lemma ordered_update: "ordered (update xs)"
  by (simp add: ordered_sorted update_sort_key)

lemma update_ordered: "ordered xs \<Longrightarrow> update xs = xs"
  by (simp add: ordered_sorted update_sort_key sort_key_id_if_sorted)

lemma mset_update: "mset (update xs) = mset xs"
  by (simp add: update_sort_key)

lemma set_update: "set (update xs) = set xs"
  by (simp add: update_sort_key)

lemma length_update: "length (update xs) = length xs"
  by (simp add: update_sort_key)

lemma update_stable:
  "filter (\<lambda>a. sort_key_of a = k) (update xs) = filter (\<lambda>a. sort_key_of a = k) xs"
  by (simp add: update_sort_key sort_key_stable)

lemma set_erase_at: "set (erase_at i xs) \<subseteq> set xs"
  by (auto simp: erase_at_def dest: in_set_takeD in_set_dropD)

lemma ordered_erase_at: "ordered xs \<Longrightarrow> ordered (erase_at i xs)"
proof -
  assume o: "ordered xs"
  have "xs = take i xs @ drop i xs" by simp
  then have "sorted_wrt (\<lambda>a b. sint (daysLived a) < sint (daysLived b)
                \<or> (daysLived a = daysLived b \<and> name a \<le> name b))
      (take i xs @ drop i xs)" using o by (simp add: ordered_def)
  moreover have "set (drop (Suc i) xs) \<subseteq> set (drop i xs)"
    by (metis drop_Suc set_drop_subset tl_drop drop_drop plus_1_eq_Suc)
  ultimately show ?thesis
    unfolding ordered_def erase_at_def sorted_wrt_append
    using sorted_wrt_drop [of _ xs "Suc i"] o
    by (auto simp: ordered_def)
qed

lemma ok_Nil: "ok r []"
  by (simp add: ok_def ordered_def)

lemma ok_add: "ok r xs \<Longrightarrow> admits r (kind b) \<Longrightarrow> ok r (add xs b)"
  by (simp add: ok_def add_def ordered_update list_all_iff set_update)

lemma ok_remove: "ok r xs \<Longrightarrow> ok r (fst (removeByIndex xs i))"
  using set_erase_at [of "nat i" xs]
  by (auto simp: ok_def removeByIndex_def ordered_update list_all_iff set_update)

lemma kind_incrementDay: "kind (incrementDay a) = kind a"
  by (simp add: incrementDay_def)

lemma ok_incrementDays: "ok r xs \<Longrightarrow> ok r (fst (incrementDays xs))"
  by (auto simp: ok_def incrementDays_eq ordered_update list_all_iff set_update kind_incrementDay)

lemma getC_init: "getC r init = []"
  by (cases r) (simp_all add: init_def)

lemma consistent_init: "consistent init"
  by (simp add: consistent_def getC_init ok_Nil)

lemma consistent_getC: "consistent m \<Longrightarrow> ok r (getC r m)"
  by (simp add: consistent_def)

lemma consistent_setC: "consistent m \<Longrightarrow> ok r xs \<Longrightarrow> consistent (setC r xs m)"
  by (simp add: consistent_def getC_setC)

lemma consistent_freedom: "consistent m \<Longrightarrow> ok RefFreedom (freedom m)"
  using consistent_getC [of m RefFreedom] by simp

lemma consistent_freedom_upd: "consistent m \<Longrightarrow> ok RefFreedom xs \<Longrightarrow> consistent (m\<lparr>freedom := xs\<rparr>)"
  using consistent_setC [of m RefFreedom xs] by simp


section \<open>What each handler does, case by case\<close>

lemma pickContainer_admits: "pickContainer cont (getTypeCode k) = Some r \<Longrightarrow> admits r k"
  by (cases k) (auto simp: pickContainer_def split: if_splits)

lemma makeAnimal_code: "makeAnimal type n d = Some a \<Longrightarrow> getTypeCode (kind a) = type"
  by (auto simp: makeAnimal_def split: if_splits)

lemma makeAnimal_fields: "makeAnimal type n d = Some a \<Longrightarrow> name a = n \<and> daysLived a = d"
  by (auto simp: makeAnimal_def split: if_splits)

lemma consistent_handleCreate: "consistent m \<Longrightarrow> consistent (fst (handleCreate m type n cont d))"
proof -
  assume i: "consistent m"
  show ?thesis
  proof (cases "makeAnimal type n d")
    case None
    then show ?thesis using i by (simp add: handleCreate_def)
  next
    case (Some a)
    show ?thesis
    proof (cases "cont = ''Freedom''")
      case True
      then show ?thesis using i Some
        by (simp add: handleCreate_def consistent_freedom_upd consistent_freedom ok_add)
    next
      case False
      show ?thesis
      proof (cases "pickContainer cont type")
        case None
        then show ?thesis using i Some False by (simp add: handleCreate_def)
      next
        case (Some c)
        then have "admits c (kind a)"
          using pickContainer_admits [of cont "kind a" c] makeAnimal_code [OF \<open>makeAnimal type n d = Some a\<close>]
          by simp
        then show ?thesis using i Some False \<open>makeAnimal type n d = Some a\<close>
          by (simp add: handleCreate_def consistent_setC ok_add consistent_getC)
      qed
    qed
  qed
qed

lemma get_valid: "0 \<le> pos \<Longrightarrow> pos < size_c xs \<Longrightarrow> get xs pos = Some (xs ! nat pos)"
  by (simp add: get_def size_c_def)

lemma removeByIndex_valid:
  "0 \<le> pos \<Longrightarrow> pos < size_c xs \<Longrightarrow> removeByIndex xs pos = (update (erase_at (nat pos) xs), Some (xs ! nat pos))"
  by (simp add: removeByIndex_def size_c_def)

lemma apply_freedom: "handleApplySubstance m ''Freedom'' type pos = (m, [SubstanceCannotBeAppliedInFreedom])"
  by (simp add: handleApplySubstance_def handleApplySubstanceFreedom_def)

lemma apply_no_container:
  "cont \<noteq> ''Freedom'' \<Longrightarrow> pickContainer cont type = None \<Longrightarrow>
   handleApplySubstance m cont type pos = (m, [AnimalNotFound])"
  by (simp add: handleApplySubstance_def)

lemma apply_bad_index:
  "cont \<noteq> ''Freedom'' \<Longrightarrow> pickContainer cont type = Some c \<Longrightarrow> pos < 0 \<or> pos \<ge> size_c (getC c m) \<Longrightarrow>
   handleApplySubstance m cont type pos = (m, [AnimalNotFound])"
  by (simp add: handleApplySubstance_def)

lemma apply_monster:
  "cont \<noteq> ''Freedom'' \<Longrightarrow> pickContainer cont type = Some c \<Longrightarrow> 0 \<le> pos \<Longrightarrow> pos < size_c (getC c m) \<Longrightarrow>
   isMonster (getC c m ! nat pos) \<Longrightarrow>
   handleApplySubstance m cont type pos = (m, [AnimalNotFound])"
  by (simp add: handleApplySubstance_def get_valid)

lemma apply_normal:
  "cont \<noteq> ''Freedom'' \<Longrightarrow> pickContainer cont type = Some c \<Longrightarrow> 0 \<le> pos \<Longrightarrow> pos < size_c (getC c m) \<Longrightarrow>
   isNormal (getC c m ! nat pos) \<Longrightarrow>
   handleApplySubstance m cont type pos =
     (let m1 = setC c (update (erase_at (nat pos) (getC c m))) m
      in case makeBetter (getC c m ! nat pos) of
           None \<Rightarrow> (m1, [])
         | Some better \<Rightarrow>
             (case pickContainer cont (getTypeCode (kind better)) of
                Some newC \<Rightarrow> (setC newC (add (getC newC m1) better) m1, [])
              | None \<Rightarrow> (m1, [])))"
proof -
  assume a: "cont \<noteq> ''Freedom''" "pickContainer cont type = Some c" "0 \<le> pos" "pos < size_c (getC c m)"
    "isNormal (getC c m ! nat pos)"
  then have "\<not> isMonster (getC c m ! nat pos)"
    by (cases "kind (getC c m ! nat pos)") (simp_all add: isNormal_def isMonster_def)
  then show ?thesis using a
    by (simp add: handleApplySubstance_def get_valid removeByIndex_valid)
qed

lemma apply_better:
  "cont \<noteq> ''Freedom'' \<Longrightarrow> pickContainer cont type = Some c \<Longrightarrow> 0 \<le> pos \<Longrightarrow> pos < size_c (getC c m) \<Longrightarrow>
   isBetter (getC c m ! nat pos) \<Longrightarrow>
   handleApplySubstance m cont type pos =
     (let m2 = setC c [] m
      in (m2\<lparr>freedom := add (freedom m2) (MonsterOf (getC c m ! nat pos))\<rparr>,
          map (\<lambda>a. HasDied (name a)) (update (erase_at (nat pos) (getC c m)))))"
proof -
  assume a: "cont \<noteq> ''Freedom''" "pickContainer cont type = Some c" "0 \<le> pos" "pos < size_c (getC c m)"
    "isBetter (getC c m ! nat pos)"
  then have "\<not> isMonster (getC c m ! nat pos)" "\<not> isNormal (getC c m ! nat pos)"
    by (cases "kind (getC c m ! nat pos)"; simp add: isNormal_def isMonster_def isBetter_def)+
  moreover have "setC c [] (setC c xs m) = setC c [] m" for xs
    by (cases c) simp_all
  ultimately show ?thesis using a
    by (simp add: handleApplySubstance_def get_valid removeByIndex_valid clear_def getC_setC Let_def)
qed


lemma stage_cases: "isNormal a \<or> isBetter a \<or> isMonster a"
  by (cases "kind a") (simp_all add: isNormal_def isBetter_def isMonster_def)

lemma consistent_handleApplySubstance:
  "consistent m \<Longrightarrow> consistent (fst (handleApplySubstance m cont type pos))"
proof -
  assume i: "consistent m"
  show ?thesis
  proof (cases "cont = ''Freedom''")
    case True
    then show ?thesis using i by (simp add: apply_freedom)
  next
    case nf: False
    show ?thesis
    proof (cases "pickContainer cont type")
      case None
      then show ?thesis using i nf by (simp add: apply_no_container)
    next
      case (Some c)
      show ?thesis
      proof (cases "pos < 0 \<or> pos \<ge> size_c (getC c m)")
        case True
        then show ?thesis using i nf Some by (simp add: apply_bad_index)
      next
        case False
        then have v: "0 \<le> pos" "pos < size_c (getC c m)" by auto
        let ?old = "getC c m ! nat pos"
        have rm: "consistent (setC c (update (erase_at (nat pos) (getC c m))) m)"
          using consistent_setC [OF i ok_remove [OF consistent_getC [OF i, of c], of pos]] v
          by (simp add: removeByIndex_valid)
        consider (n) "isNormal ?old" | (b) "isBetter ?old" | (mo) "isMonster ?old"
          using stage_cases by blast
        then show ?thesis
        proof cases
          case n
          show ?thesis
          proof (cases "makeBetter ?old")
            case None
            then show ?thesis using rm by (simp add: apply_normal [OF nf Some v n])
          next
            case sb: (Some better)
            show ?thesis
            proof (cases "pickContainer cont (getTypeCode (kind better))")
              case None
              then show ?thesis using rm sb by (simp add: apply_normal [OF nf Some v n])
            next
              case (Some newC)
              then have "admits newC (kind better)" by (rule pickContainer_admits)
              then show ?thesis using rm sb Some
                by (simp add: apply_normal [OF nf \<open>pickContainer cont type = Some c\<close> v n]
                    consistent_setC ok_add consistent_getC Let_def)
            qed
          qed
        next
          case b
          have "consistent (setC c [] m)" using i by (simp add: consistent_setC ok_Nil)
          then show ?thesis
            by (simp add: apply_better [OF nf Some v b] Let_def consistent_freedom_upd
                consistent_freedom ok_add)
        next
          case mo
          then show ?thesis using i by (simp add: apply_monster [OF nf Some v])
        qed
      qed
    qed
  qed
qed

lemma remove_freedom: "handleRemoveSubstance m ''Freedom'' type pos = (m, [SubstanceCannotBeRemovedInFreedom])"
  by (simp add: handleRemoveSubstance_def handleRemoveSubstanceFreedom_def)

lemma remove_no_container:
  "cont \<noteq> ''Freedom'' \<Longrightarrow> pickContainer cont type = None \<Longrightarrow>
   handleRemoveSubstance m cont type pos = (m, [AnimalNotFound])"
  by (simp add: handleRemoveSubstance_def)

lemma remove_bad_index:
  "cont \<noteq> ''Freedom'' \<Longrightarrow> pickContainer cont type = Some c \<Longrightarrow> pos < 0 \<or> pos \<ge> size_c (getC c m) \<Longrightarrow>
   handleRemoveSubstance m cont type pos = (m, [AnimalNotFound])"
  by (simp add: handleRemoveSubstance_def)

lemma remove_not_better:
  "cont \<noteq> ''Freedom'' \<Longrightarrow> pickContainer cont type = Some c \<Longrightarrow> 0 \<le> pos \<Longrightarrow> pos < size_c (getC c m) \<Longrightarrow>
   \<not> isBetter (getC c m ! nat pos) \<Longrightarrow>
   handleRemoveSubstance m cont type pos = (m, [InvalidSubstanceRemoval])"
  by (simp add: handleRemoveSubstance_def get_valid)

lemma remove_better:
  "cont \<noteq> ''Freedom'' \<Longrightarrow> pickContainer cont type = Some c \<Longrightarrow> 0 \<le> pos \<Longrightarrow> pos < size_c (getC c m) \<Longrightarrow>
   isBetter (getC c m ! nat pos) \<Longrightarrow>
   handleRemoveSubstance m cont type pos =
     (let m1 = setC c (update (erase_at (nat pos) (getC c m))) m
      in case makeNormal (getC c m ! nat pos) of
           None \<Rightarrow> (m1, [])
         | Some normal \<Rightarrow>
             (case pickContainer cont (getTypeCode (kind normal)) of
                Some newC \<Rightarrow> (setC newC (add (getC newC m1) normal) m1, [])
              | None \<Rightarrow> (m1, [])))"
  by (simp add: handleRemoveSubstance_def get_valid removeByIndex_valid)

lemma consistent_handleRemoveSubstance:
  "consistent m \<Longrightarrow> consistent (fst (handleRemoveSubstance m cont type pos))"
proof -
  assume i: "consistent m"
  show ?thesis
  proof (cases "cont = ''Freedom''")
    case True
    then show ?thesis using i by (simp add: remove_freedom)
  next
    case nf: False
    show ?thesis
    proof (cases "pickContainer cont type")
      case None
      then show ?thesis using i nf by (simp add: remove_no_container)
    next
      case (Some c)
      show ?thesis
      proof (cases "pos < 0 \<or> pos \<ge> size_c (getC c m)")
        case True
        then show ?thesis using i nf Some by (simp add: remove_bad_index)
      next
        case False
        then have v: "0 \<le> pos" "pos < size_c (getC c m)" by auto
        let ?old = "getC c m ! nat pos"
        have rm: "consistent (setC c (update (erase_at (nat pos) (getC c m))) m)"
          using consistent_setC [OF i ok_remove [OF consistent_getC [OF i, of c], of pos]] v
          by (simp add: removeByIndex_valid)
        show ?thesis
        proof (cases "isBetter ?old")
          case False
          then show ?thesis using i by (simp add: remove_not_better [OF nf Some v])
        next
          case b: True
          show ?thesis
          proof (cases "makeNormal ?old")
            case None
            then show ?thesis using rm by (simp add: remove_better [OF nf Some v b])
          next
            case sb: (Some normal)
            show ?thesis
            proof (cases "pickContainer cont (getTypeCode (kind normal))")
              case None
              then show ?thesis using rm sb by (simp add: remove_better [OF nf Some v b])
            next
              case (Some newC)
              then have "admits newC (kind normal)" by (rule pickContainer_admits)
              then show ?thesis using rm sb Some
                by (simp add: remove_better [OF nf \<open>pickContainer cont type = Some c\<close> v b]
                    consistent_setC ok_add consistent_getC Let_def)
            qed
          qed
        qed
      qed
    qed
  qed
qed

lemma attack_freedom: "handleAttack m ''Freedom'' type pos1 pos2 = (m, [AnimalsCannotAttackInFreedom])"
  by (simp add: handleAttack_def handleAttackFreedom_def)

lemma attack_no_container:
  "cont \<noteq> ''Freedom'' \<Longrightarrow> pickContainer cont type = None \<Longrightarrow>
   handleAttack m cont type pos1 pos2 = (m, [AnimalNotFound])"
  by (simp add: handleAttack_def)

lemma attack_bad_index:
  "cont \<noteq> ''Freedom'' \<Longrightarrow> pickContainer cont type = Some c \<Longrightarrow>
   pos1 < 0 \<or> pos1 \<ge> size_c (getC c m) \<or> pos2 < 0 \<or> pos2 \<ge> size_c (getC c m) \<or> pos1 = pos2 \<Longrightarrow>
   handleAttack m cont type pos1 pos2 = (m, [AnimalNotFound])"
  by (simp add: handleAttack_def)

lemma attack_valid:
  "cont \<noteq> ''Freedom'' \<Longrightarrow> pickContainer cont type = Some c \<Longrightarrow>
   0 \<le> pos1 \<Longrightarrow> pos1 < size_c (getC c m) \<Longrightarrow> 0 \<le> pos2 \<Longrightarrow> pos2 < size_c (getC c m) \<Longrightarrow> pos1 \<noteq> pos2 \<Longrightarrow>
   handleAttack m cont type pos1 pos2 =
     (setC c (update (erase_at (nat pos2) (getC c m))) m,
      [IsAttacking (getTypeName (kind (getC c m ! nat pos1)))])"
  by (simp add: handleAttack_def get_valid removeByIndex_valid attack_def)

lemma consistent_handleAttack:
  "consistent m \<Longrightarrow> consistent (fst (handleAttack m cont type pos1 pos2))"
proof -
  assume i: "consistent m"
  show ?thesis
  proof (cases "cont = ''Freedom''")
    case True
    then show ?thesis using i by (simp add: attack_freedom)
  next
    case nf: False
    show ?thesis
    proof (cases "pickContainer cont type")
      case None
      then show ?thesis using i nf by (simp add: attack_no_container)
    next
      case (Some c)
      show ?thesis
      proof (cases "pos1 < 0 \<or> pos1 \<ge> size_c (getC c m) \<or> pos2 < 0 \<or> pos2 \<ge> size_c (getC c m) \<or> pos1 = pos2")
        case True
        then show ?thesis using i by (simp add: attack_bad_index [OF nf Some])
      next
        case False
        then have v: "0 \<le> pos1" "pos1 < size_c (getC c m)" "0 \<le> pos2" "pos2 < size_c (getC c m)" "pos1 \<noteq> pos2"
          by auto
        have rm: "consistent (setC c (update (erase_at (nat pos2) (getC c m))) m)"
          using consistent_setC [OF i ok_remove [OF consistent_getC [OF i, of c], of pos2]] v
          by (simp add: removeByIndex_valid)
        then show ?thesis by (simp add: attack_valid [OF nf Some v])
      qed
    qed
  qed
qed

lemma handleTalkFreedom_state: "fst (handleTalkFreedom m pos) = m"
  by (simp add: handleTalkFreedom_def split: option.splits)

lemma handleTalk_state: "fst (handleTalk m cont type pos) = m"
  by (simp add: handleTalk_def handleTalkFreedom_state split: option.splits)

lemma fst_incrementDays_in: "fst (incrementDays_in r s) = setC r (fst (incrementDays (getC r (fst s)))) (fst s)"
  by (simp add: incrementDays_in_def split: prod.splits)

lemma consistent_incrementDays_in: "consistent (fst s) \<Longrightarrow> consistent (fst (incrementDays_in r s))"
  by (simp only: fst_incrementDays_in consistent_setC ok_incrementDays consistent_getC)

lemma consistent_doPeriod: "consistent m \<Longrightarrow> consistent (fst (doPeriod m))"
  unfolding doPeriod_def
  by (intro consistent_incrementDays_in) simp

lemma consistent_exec: "consistent m \<Longrightarrow> consistent (fst (exec m cmd))"
  by (cases cmd)
    (simp_all add: consistent_handleCreate consistent_handleApplySubstance consistent_handleRemoveSubstance
      consistent_handleAttack handleTalk_state handleTalkFreedom_state consistent_doPeriod
      handleApplySubstanceFreedom_def handleRemoveSubstanceFreedom_def handleAttackFreedom_def)

lemma reachable_consistent: "reachable m \<Longrightarrow> consistent m"
  by (induction rule: reachable.induct) (simp_all add: consistent_init consistent_exec)


section \<open>doPeriod visits every container once\<close>

lemma foldl_incrementDays_in:
  "distinct rs \<Longrightarrow>
   foldl (\<lambda>s r. incrementDays_in r s) s rs =
     (let m = fst s in
      (foldl (\<lambda>m' r. setC r (fst (incrementDays (getC r m))) m') m rs,
       snd s @ concat (map (\<lambda>r. snd (incrementDays (getC r m))) rs)))"
proof (induction rs arbitrary: s)
  case Nil
  then show ?case by simp
next
  case (Cons r rs)
  obtain m out where s: "s = (m, out)" by (cases s)
  have get: "getC r' (setC r xs m) = getC r' m" if "r' \<in> set rs" for r' xs
    using that Cons.prems by (auto simp: getC_setC)
  have step: "incrementDays_in r (m, out) = (setC r (fst (incrementDays (getC r m))) m, out @ snd (incrementDays (getC r m)))"
    by (simp add: incrementDays_in_def split: prod.splits)
  have f: "foldl (\<lambda>m' r'. setC r' (fst (incrementDays (getC r' (setC r xs m)))) m') m0 rs
         = foldl (\<lambda>m' r'. setC r' (fst (incrementDays (getC r' m))) m') m0 rs" for xs m0
    by (rule foldl_cong) (simp_all add: get)
  have c: "map (\<lambda>r'. snd (incrementDays (getC r' (setC r xs m)))) rs
         = map (\<lambda>r'. snd (incrementDays (getC r' m))) rs" for xs
    by (rule map_cong) (simp_all add: get)
  show ?case using Cons.prems
    by (simp add: Cons.IH step s Let_def f c)
qed

lemma doPeriod_foldl: "doPeriod m = foldl (\<lambda>s r. incrementDays_in r s) (m, []) period_order"
  by (simp add: doPeriod_def period_order_def)

lemma getC_foldl_setC:
  "distinct rs \<Longrightarrow> getC r (foldl (\<lambda>m' r'. setC r' (f r') m') m0 rs) = (if r \<in> set rs then f r else getC r m0)"
  by (induction rs arbitrary: m0) (auto simp: getC_setC)

lemma doPeriod_container: "getC r (fst (doPeriod m)) = fst (incrementDays (getC r m))"
proof -
  have d: "distinct period_order" by (simp add: period_order_def)
  have "r \<in> set period_order" by (cases r) (simp_all add: period_order_def)
  then show ?thesis
    by (simp add: doPeriod_foldl foldl_incrementDays_in [OF d] getC_foldl_setC [OF d])
qed

lemma doPeriod_output:
  "snd (doPeriod m) = concat (map (\<lambda>r. snd (incrementDays (getC r m))) period_order)"
proof -
  have d: "distinct period_order" by (simp add: period_order_def)
  show ?thesis by (simp add: doPeriod_foldl foldl_incrementDays_in [OF d])
qed

lemma apply_outcomes:
  "cont \<noteq> ''Freedom'' \<Longrightarrow>
   handleApplySubstance m cont type pos = (m, [AnimalNotFound])
   \<or> (\<forall>l \<in> set (snd (handleApplySubstance m cont type pos)). \<not> is_failure l)"
proof -
  assume nf: "cont \<noteq> ''Freedom''"
  show ?thesis
  proof (cases "pickContainer cont type")
    case None
    then show ?thesis using nf by (simp add: apply_no_container)
  next
    case (Some c)
    show ?thesis
    proof (cases "pos < 0 \<or> pos \<ge> size_c (getC c m)")
      case True
      then show ?thesis using nf Some by (simp add: apply_bad_index)
    next
      case False
      then have v: "0 \<le> pos" "pos < size_c (getC c m)" by auto
      consider (n) "isNormal (getC c m ! nat pos)" | (b) "isBetter (getC c m ! nat pos)"
        | (mo) "isMonster (getC c m ! nat pos)"
        using stage_cases by blast
      then show ?thesis
      proof cases
        case n
        then show ?thesis
          by (simp add: apply_normal [OF nf Some v n] Let_def split: option.splits)
      next
        case b
        then show ?thesis by (simp add: apply_better [OF nf Some v b] Let_def)
      next
        case mo
        then show ?thesis by (simp add: apply_monster [OF nf Some v])
      qed
    qed
  qed
qed

section \<open>More on the handlers\<close>

lemma remove_outcomes:
  "fst (handleRemoveSubstance m cont type pos) = m
   \<or> (\<forall>l \<in> set (snd (handleRemoveSubstance m cont type pos)). \<not> is_failure l)"
proof (cases "cont = ''Freedom''")
  case True
  then show ?thesis by (simp add: remove_freedom)
next
  case nf: False
  show ?thesis
  proof (cases "pickContainer cont type")
    case None
    then show ?thesis using nf by (simp add: remove_no_container)
  next
    case (Some c)
    show ?thesis
    proof (cases "pos < 0 \<or> pos \<ge> size_c (getC c m)")
      case True
      then show ?thesis using nf Some by (simp add: remove_bad_index)
    next
      case False
      then have v: "0 \<le> pos" "pos < size_c (getC c m)" by auto
      show ?thesis
      proof (cases "isBetter (getC c m ! nat pos)")
        case True
        then show ?thesis
          by (simp add: remove_better [OF nf Some v True] Let_def split: option.splits)
      next
        case False
        then show ?thesis by (simp add: remove_not_better [OF nf Some v])
      qed
    qed
  qed
qed

lemma attack_outcomes:
  "fst (handleAttack m cont type pos1 pos2) = m
   \<or> (\<forall>l \<in> set (snd (handleAttack m cont type pos1 pos2)). \<not> is_failure l)"
proof (cases "cont = ''Freedom''")
  case True
  then show ?thesis by (simp add: attack_freedom)
next
  case nf: False
  show ?thesis
  proof (cases "pickContainer cont type")
    case None
    then show ?thesis using nf by (simp add: attack_no_container)
  next
    case (Some c)
    show ?thesis
    proof (cases "pos1 < 0 \<or> pos1 \<ge> size_c (getC c m) \<or> pos2 < 0 \<or> pos2 \<ge> size_c (getC c m) \<or> pos1 = pos2")
      case True
      then show ?thesis by (simp add: attack_bad_index [OF nf Some])
    next
      case False
      then have v: "0 \<le> pos1" "pos1 < size_c (getC c m)" "0 \<le> pos2" "pos2 < size_c (getC c m)" "pos1 \<noteq> pos2"
        by auto
      show ?thesis by (simp add: attack_valid [OF nf Some v])
    qed
  qed
qed

lemma create_outcomes: "\<forall>l \<in> set (snd (handleCreate m type n cont d)). \<not> is_failure l"
  by (simp add: handleCreate_def sayName_def split: option.splits)

lemma period_outcomes: "\<forall>l \<in> set (snd (doPeriod m)). \<not> is_failure l"
  by (auto simp: doPeriod_output incrementDays_eq)

lemma apply_outcomes_any:
  "fst (handleApplySubstance m cont type pos) = m
   \<or> (\<forall>l \<in> set (snd (handleApplySubstance m cont type pos)). \<not> is_failure l)"
proof (cases "cont = ''Freedom''")
  case True
  then show ?thesis by (simp add: apply_freedom)
next
  case False
  then show ?thesis using apply_outcomes [OF False, of m type pos] by auto
qed

lemma exec_outcomes:
  "fst (exec m cmd) = m \<or> (\<forall>l \<in> set (snd (exec m cmd)). \<not> is_failure l)"
proof (cases cmd)
  case (Create type n cont d)
  then show ?thesis using create_outcomes [of m type n cont d] by simp
next
  case (ApplySubstance cont type pos)
  then show ?thesis using apply_outcomes_any [of m cont type pos] by simp
next
  case (RemoveSubstance cont type pos)
  then show ?thesis using remove_outcomes [of m cont type pos] by simp
next
  case (Attack cont type pos1 pos2)
  then show ?thesis using attack_outcomes [of m cont type pos1 pos2] by simp
next
  case Period
  then show ?thesis using period_outcomes [of m] by simp
qed (simp_all add: handleApplySubstanceFreedom_def handleRemoveSubstanceFreedom_def
      handleAttackFreedom_def handleTalk_state handleTalkFreedom_state)

lemma mset_erase_at: "i < length xs \<Longrightarrow> mset (erase_at i xs) = mset xs - {#xs ! i#}"
proof -
  assume i: "i < length xs"
  have "mset xs = mset (take i xs @ xs ! i # drop (Suc i) xs)"
    using id_take_nth_drop [OF i] by simp
  also have "\<dots> = mset (erase_at i xs) + {#xs ! i#}"
    by (simp add: erase_at_def)
  finally show ?thesis by simp
qed

lemma length_erase_at: "i < length xs \<Longrightarrow> length (erase_at i xs) = length xs - 1"
  by (auto simp: erase_at_def)

lemma nth_erase_at:
  "i < length xs \<Longrightarrow> j < length xs \<Longrightarrow> j \<noteq> i \<Longrightarrow>
   erase_at i xs ! (if j < i then j else j - 1) = xs ! j"
  by (auto simp: erase_at_def nth_append min_def)

lemma pick_not_freedom: "cont \<noteq> ''Freedom'' \<Longrightarrow> pickContainer cont type = Some c \<Longrightarrow> c \<noteq> RefFreedom"
  by (auto simp: pickContainer_def split: if_splits)

lemma getC_freedom_upd: "getC r (m\<lparr>freedom := xs\<rparr>) = (if r = RefFreedom then xs else getC r m)"
  by (cases r) simp_all

lemma freedom_setC: "c \<noteq> RefFreedom \<Longrightarrow> freedom (setC c xs m) = freedom m"
  by (cases c) simp_all

lemma getC_setC_same: "getC c (setC c xs m) = xs"
  by (simp add: getC_setC)

lemma getC_setC_other: "r \<noteq> c \<Longrightarrow> getC r (setC c xs m) = getC r m"
  by (simp add: getC_setC)

lemma erase_index_bound:
  "i < length xs \<Longrightarrow> j < length xs \<Longrightarrow> j \<noteq> i \<Longrightarrow> (if j < i then j else j - 1) < length xs - 1"
  for i j :: nat
  by (cases "j < i") simp_all

lemma attack_valid_result:
  assumes nf: "cont \<noteq> ''Freedom''" and pc: "pickContainer cont type = Some c"
    and v: "0 \<le> pos1" "pos1 < size_c (getC c m)" "0 \<le> pos2" "pos2 < size_c (getC c m)" "pos1 \<noteq> pos2"
  shows "\<exists>m'. handleAttack m cont type pos1 pos2
                = (m', [IsAttacking (getTypeName (kind (getC c m ! nat pos1)))])
           \<and> getC c m' = update (erase_at (nat pos2) (getC c m))
           \<and> mset (getC c m') = mset (getC c m) - {#getC c m ! nat pos2#}
           \<and> getC c m ! nat pos1 \<in> set (getC c m')
           \<and> (\<forall>r. r \<noteq> c \<longrightarrow> getC r m' = getC r m)
           \<and> (ordered (getC c m) \<longrightarrow>
                getC c m' = erase_at (nat pos2) (getC c m)
              \<and> getC c m' ! (if pos1 < pos2 then nat pos1 else nat pos1 - 1) = getC c m ! nat pos1)"
proof -
  let ?xs = "getC c m"
  let ?ys = "update (erase_at (nat pos2) ?xs)"
  let ?m' = "setC c ?ys m"
  let ?j = "if nat pos1 < nat pos2 then nat pos1 else nat pos1 - 1"
  have i: "nat pos2 < length ?xs" and j: "nat pos1 < length ?xs" and ne: "nat pos1 \<noteq> nat pos2"
    using v by (simp_all add: size_c_def)
  have run: "handleAttack m cont type pos1 pos2
                = (?m', [IsAttacking (getTypeName (kind (?xs ! nat pos1)))])"
    by (rule attack_valid [OF nf pc v])
  have 1: "getC c ?m' = ?ys" by (rule getC_setC_same)
  have 2: "mset ?ys = mset ?xs - {#?xs ! nat pos2#}"
    by (simp only: mset_update mset_erase_at [OF i])
  have nth: "erase_at (nat pos2) ?xs ! ?j = ?xs ! nat pos1"
    by (rule nth_erase_at [OF i j ne])
  have "?j < length ?xs - 1"
    using i j ne by (rule erase_index_bound)
  then have "?j < length (erase_at (nat pos2) ?xs)"
    by (simp only: length_erase_at [OF i])
  then have "erase_at (nat pos2) ?xs ! ?j \<in> set (erase_at (nat pos2) ?xs)" by (rule nth_mem)
  then have 3: "?xs ! nat pos1 \<in> set ?ys" by (simp only: nth set_update)
  have 4: "\<forall>r. r \<noteq> c \<longrightarrow> getC r ?m' = getC r m" by (simp add: getC_setC_other)
  have jj: "(if pos1 < pos2 then nat pos1 else nat pos1 - 1) = ?j" using v by auto
  have 5: "ordered ?xs \<longrightarrow> ?ys = erase_at (nat pos2) ?xs
      \<and> ?ys ! (if pos1 < pos2 then nat pos1 else nat pos1 - 1) = ?xs ! nat pos1"
  proof
    assume "ordered ?xs"
    then have "?ys = erase_at (nat pos2) ?xs" by (simp add: update_ordered ordered_erase_at)
    then show "?ys = erase_at (nat pos2) ?xs
      \<and> ?ys ! (if pos1 < pos2 then nat pos1 else nat pos1 - 1) = ?xs ! nat pos1"
      using nth by (simp only: jj)
  qed
  show ?thesis
    apply (rule exI [of _ ?m'])
    apply (simp only: 1)
    apply (intro conjI)
         apply (rule run)
        apply (rule refl)
       apply (rule 2)
      apply (rule 3)
     apply (rule 4)
    apply (rule 5)
    done
qed

lemma sint_in_range:
  "- 2147483648 \<le> k \<Longrightarrow> k < 2147483648 \<Longrightarrow> sint (word_of_int k :: cpp_int) = k"
  by (simp add: sint_sbintrunc' signed_take_bit_int_eq_self)

lemma sint_bounds: "- 2147483648 \<le> sint a \<and> sint a < 2147483648" for a :: cpp_int
  using sint_ge [of a] sint_lt [of a] by simp

lemma sint_succ: "sint a < 2147483647 \<Longrightarrow> sint (a + 1) = sint a + 1" for a :: cpp_int
proof -
  assume "sint a < 2147483647"
  moreover have "a + 1 = word_of_int (sint a + 1)" by simp
  ultimately show ?thesis using sint_bounds [of a] sint_in_range [of "sint a + 1"] by simp
qed

lemma sint_double:
  "- 1073741824 \<le> sint a \<Longrightarrow> sint a < 1073741824 \<Longrightarrow> sint (a * 2) = 2 * sint a"
  for a :: cpp_int
proof -
  assume "- 1073741824 \<le> sint a" "sint a < 1073741824"
  moreover have "a * 2 = word_of_int (2 * sint a)" by simp
  ultimately show ?thesis using sint_in_range [of "2 * sint a"] by (simp add: mult.commute)
qed

lemma half_up: "\<lceil>real_of_int k / 2\<rceil> = (k + 1) div 2"
proof -
  have "\<lceil>real_of_int k / 2\<rceil> = - (- k div 2)"
    using ceiling_divide_eq_div [of k 2] by simp
  also have "\<dots> = (k + 1) div 2" by linarith
  finally show ?thesis .
qed

lemma cpp_div_ceiling:
  assumes "0 \<le> sint a" and "sint a < 2147483647"
  shows "cpp_div (a + 1) 2 = word_of_int \<lceil>real_of_int (sint a) / 2\<rceil>"
    and "sint (cpp_div (a + 1) 2) = \<lceil>real_of_int (sint a) / 2\<rceil>"
proof -
  have s2: "sint (2 :: cpp_int) = 2" using sint_in_range [of 2] by simp
  have "sgn (sint a + 1) * sgn (2 :: int) * (\<bar>sint a + 1\<bar> div \<bar>2\<bar>) = (sint a + 1) div 2"
    using assms(1) by simp
  then have "cpp_div (a + 1) 2 = word_of_int ((sint a + 1) div 2)"
    by (simp only: cpp_div_def sint_succ [OF assms(2)] s2)
  then show 1: "cpp_div (a + 1) 2 = word_of_int \<lceil>real_of_int (sint a) / 2\<rceil>"
    by (simp only: half_up)
  have "0 \<le> (sint a + 1) div 2" "(sint a + 1) div 2 < 2147483648" using assms by simp_all
  then show "sint (cpp_div (a + 1) 2) = \<lceil>real_of_int (sint a) / 2\<rceil>"
    unfolding 1 half_up by (intro sint_in_range) simp_all
qed

lemma twice_ceiling_half:
  "2 * \<lceil>real_of_int a / 2\<rceil> = (if even a then a else a + 1)"
proof -
  have "\<lceil>real_of_int a / 2\<rceil> = - (- a div 2)"
    using ceiling_divide_eq_div [of a 2] by simp
  moreover have "2 * - (- a div 2) = (if even a then a else a + 1)"
    by presburger
  ultimately show ?thesis by simp
qed

lemma normal_target:
  "cont \<noteq> ''Freedom'' \<Longrightarrow> pickContainer cont type = Some c \<Longrightarrow> admits c k \<Longrightarrow> isNormalK k \<Longrightarrow>
   \<exists>newC. betterRef c = Some newC \<and> newC \<noteq> c
     \<and> pickContainer cont (getTypeCode (betterKind k)) = Some newC
     \<and> pickContainer cont (getTypeCode k) = Some c"
  by (cases c; cases k; simp add: pickContainer_def split: if_splits)

lemma makeBetter_normal:
  "isNormal a \<Longrightarrow> makeBetter a = Some (BetterOf (betterKind (kind a)) a)"
  by (cases "kind a") (simp_all add: isNormal_def makeBetter_def)

lemma betterKind_better: "isNormalK k \<Longrightarrow> isBetterK (betterKind k)"
  by (cases k) simp_all

lemma setC_commute: "r \<noteq> c \<Longrightarrow> getC r (setC r' ys (setC c xs m)) = getC r (setC r' ys m)"
  by (simp add: getC_setC)

lemma apply_normal_result:
  assumes co: "consistent m" and nf: "cont \<noteq> ''Freedom''" and pc: "pickContainer cont type = Some c"
    and v: "0 \<le> pos" "pos < size_c (getC c m)" and n: "isNormal (getC c m ! nat pos)"
  shows "\<exists>newC. betterRef c = Some newC \<and> newC \<noteq> c
           \<and> pickContainer cont (getTypeCode (betterKind (kind (getC c m ! nat pos)))) = Some newC
           \<and> pickContainer cont (getTypeCode (kind (getC c m ! nat pos))) = Some c
           \<and> handleApplySubstance m cont type pos
               = (setC newC (add (getC newC m) (BetterOf (betterKind (kind (getC c m ! nat pos))) (getC c m ! nat pos)))
                    (setC c (erase_at (nat pos) (getC c m)) m), [])"
proof -
  let ?xs = "getC c m"
  let ?old = "?xs ! nat pos"
  let ?better = "BetterOf (betterKind (kind ?old)) ?old"
  have i: "nat pos < length ?xs" using v by (simp add: size_c_def)
  have okc: "ok c ?xs" using co by (rule consistent_getC)
  then have "admits c (kind ?old)" using i by (simp add: ok_def list_all_length)
  moreover have "isNormalK (kind ?old)" using n by (simp add: isNormal_def)
  ultimately obtain newC where t: "betterRef c = Some newC" "newC \<noteq> c"
    "pickContainer cont (getTypeCode (betterKind (kind ?old))) = Some newC"
    "pickContainer cont (getTypeCode (kind ?old)) = Some c"
    using normal_target [OF nf pc] by blast
  have kb: "kind ?better = betterKind (kind ?old)" by (simp add: BetterOf_def)
  have u: "update (erase_at (nat pos) ?xs) = erase_at (nat pos) ?xs"
    using okc by (simp add: ok_def update_ordered ordered_erase_at)
  have g: "getC newC (setC c (erase_at (nat pos) ?xs) m) = getC newC m"
    using t(2) by (simp add: getC_setC_other)
  have "handleApplySubstance m cont type pos
      = (setC newC (add (getC newC m) ?better) (setC c (erase_at (nat pos) ?xs) m), [])"
    by (simp add: apply_normal [OF nf pc v n] makeBetter_normal [OF n] kb t(3) u g Let_def)
  then show ?thesis using t by blast
qed

lemma better_source:
  "cont \<noteq> ''Freedom'' \<Longrightarrow> pickContainer cont type = Some c \<Longrightarrow> admits c k \<Longrightarrow> isBetterK k \<Longrightarrow>
   \<exists>newC. betterRef newC = Some c \<and> newC \<noteq> c
     \<and> pickContainer cont (getTypeCode (normalKind k)) = Some newC"
  by (cases c; cases k; simp add: pickContainer_def split: if_splits)

lemma makeNormal_better:
  "isBetter a \<Longrightarrow>
   makeNormal a = Some \<lparr>kind = normalKind (kind a), name = name a, daysLived = daysLived a * 2\<rparr>"
  by (cases "kind a") (simp_all add: isBetter_def makeNormal_def)

lemma betterRef_inj: "betterRef r = Some c \<Longrightarrow> betterRef r' = Some c \<Longrightarrow> r = r'"
  by (cases r; cases r'; simp)

lemma normalKind_betterKind: "isNormalK k \<Longrightarrow> normalKind (betterKind k) = k"
  by (cases k) simp_all

lemma remove_better_result:
  assumes co: "consistent m" and nf: "cont \<noteq> ''Freedom''" and pc: "pickContainer cont type = Some c"
    and v: "0 \<le> pos" "pos < size_c (getC c m)" and b: "isBetter (getC c m ! nat pos)"
  shows "\<exists>newC. betterRef newC = Some c \<and> newC \<noteq> c
           \<and> handleRemoveSubstance m cont type pos
               = (setC newC (add (getC newC m)
                      \<lparr>kind = normalKind (kind (getC c m ! nat pos)), name = name (getC c m ! nat pos),
                        daysLived = daysLived (getC c m ! nat pos) * 2\<rparr>)
                    (setC c (erase_at (nat pos) (getC c m)) m), [])"
proof -
  let ?xs = "getC c m"
  let ?old = "?xs ! nat pos"
  let ?normal = "\<lparr>kind = normalKind (kind ?old), name = name ?old, daysLived = daysLived ?old * 2\<rparr>"
  have i: "nat pos < length ?xs" using v by (simp add: size_c_def)
  have okc: "ok c ?xs" using co by (rule consistent_getC)
  then have "admits c (kind ?old)" using i by (simp add: ok_def list_all_length)
  moreover have "isBetterK (kind ?old)" using b by (simp add: isBetter_def)
  ultimately obtain newC where t: "betterRef newC = Some c" "newC \<noteq> c"
    "pickContainer cont (getTypeCode (normalKind (kind ?old))) = Some newC"
    using better_source [OF nf pc] by blast
  have u: "update (erase_at (nat pos) ?xs) = erase_at (nat pos) ?xs"
    using okc by (simp add: ok_def update_ordered ordered_erase_at)
  have g: "getC newC (setC c (erase_at (nat pos) ?xs) m) = getC newC m"
    using t(2) by (simp add: getC_setC_other)
  have "handleRemoveSubstance m cont type pos
      = (setC newC (add (getC newC m) ?normal) (setC c (erase_at (nat pos) ?xs) m), [])"
    by (simp add: remove_better [OF nf pc v b] makeNormal_better [OF b] t(3) u g Let_def)
  then show ?thesis using t by blast
qed

lemma admits_no_monster: "r \<noteq> RefFreedom \<Longrightarrow> admits r k \<Longrightarrow> k \<noteq> Monster"
  by (cases r) auto

section \<open>The example states\<close>

lemma mouse_in_cage_eq:
  "mouse_in_cage d = init\<lparr>cageMouse := [\<lparr>kind = Mouse, name = ''Jerry'', daysLived = d\<rparr>]\<rparr>"
  by (simp add: mouse_in_cage_def handler_defs)

lemma two_better_fish_eq:
  "two_better_fish = init\<lparr>aquariumBetterFish :=
     [\<lparr>kind = BetterFish, name = ''Nemo'', daysLived = 2\<rparr>,
      \<lparr>kind = BetterFish, name = ''Dory'', daysLived = 3\<rparr>]\<rparr>"
  by (simp add: two_better_fish_def handler_defs sort_key_of_def)

lemma two_birds_eq:
  "two_birds = init\<lparr>cageBird :=
     [\<lparr>kind = Bird, name = ''Polly'', daysLived = 2\<rparr>,
      \<lparr>kind = Bird, name = ''Tweety'', daysLived = 2\<rparr>]\<rparr>"
  by (simp add: two_birds_def handler_defs sort_key_of_def)

lemma reachable_examples:
  "reachable (mouse_in_cage d)" "reachable two_better_fish" "reachable two_birds"
  unfolding mouse_in_cage_def two_better_fish_def two_birds_def
  by (intro reachable.intros)+

lemmas period_defs = doPeriod_def incrementDays_in_def incrementDays_def erase_dead_def
  incrementDay_def

section \<open>The properties\<close>

subsection \<open>C1: Normal to Better\<close>

text \<open>
  C1, for ages from 0 to 2147483646. In a state the program can reach, let a Normal animal
  of such an age \<open>a\<close> stand at a valid index of the container that a habitat other than
  Freedom and a type code pick. Then \<open>handleApplySubstance\<close> prints nothing, takes the
  animal out of that container (the other animals keep their order), and adds to the
  Better container of the same habitat an animal of the derived Better class with the same
  name and age \<open>\<lceil>a / 2\<rceil>\<close>; no other container changes.
\<close>

theorem applySubstance_normal_to_better:
  assumes "reachable m" and "cont \<noteq> ''Freedom''" and "pickContainer cont type = Some c"
    and "0 \<le> pos" and "pos < size_c (getC c m)"
    and "isNormal (getC c m ! nat pos)"
    and "0 \<le> sint (daysLived (getC c m ! nat pos))"
    and "sint (daysLived (getC c m ! nat pos)) < 2147483647"
  shows "\<exists>m' newC better.
           handleApplySubstance m cont type pos = (m', [])
         \<and> kind better = betterKind (kind (getC c m ! nat pos))
         \<and> name better = name (getC c m ! nat pos)
         \<and> sint (daysLived better) = \<lceil>real_of_int (sint (daysLived (getC c m ! nat pos))) / 2\<rceil>
         \<and> isBetter better
         \<and> betterRef c = Some newC
         \<and> getC c m' = erase_at (nat pos) (getC c m)
         \<and> getC newC m' = add (getC newC m) better
         \<and> mset (getC newC m') = mset (getC newC m) + {#better#}
         \<and> (\<forall>r. r \<noteq> c \<and> r \<noteq> newC \<longrightarrow> getC r m' = getC r m)"
proof -
  let ?xs = "getC c m"
  let ?old = "?xs ! nat pos"
  let ?better = "BetterOf (betterKind (kind ?old)) ?old"
  have co: "consistent m" using assms(1) by (rule reachable_consistent)
  obtain newC where t: "betterRef c = Some newC" "newC \<noteq> c"
    and run: "handleApplySubstance m cont type pos
               = (setC newC (add (getC newC m) ?better) (setC c (erase_at (nat pos) ?xs) m), [])"
    using apply_normal_result [OF co assms(2-6)] by blast
  let ?m' = "setC newC (add (getC newC m) ?better) (setC c (erase_at (nat pos) ?xs) m)"
  have k: "kind ?better = betterKind (kind ?old)" and n: "name ?better = name ?old"
    by (simp_all add: BetterOf_def)
  have d: "sint (daysLived ?better) = \<lceil>real_of_int (sint (daysLived ?old)) / 2\<rceil>"
    unfolding BetterOf_def using cpp_div_ceiling(2) [OF assms(7,8)] by simp
  have 1: "isBetter ?better" using assms(6) by (simp add: isBetter_def isNormal_def k betterKind_better)
  have 2: "getC c ?m' = erase_at (nat pos) ?xs" using t(2) by (simp add: getC_setC)
  have 3: "getC newC ?m' = add (getC newC m) ?better" by (simp add: getC_setC)
  have 4: "mset (add (getC newC m) ?better) = mset (getC newC m) + {#?better#}"
    by (simp add: add_def mset_update)
  have 5: "\<forall>r. r \<noteq> c \<and> r \<noteq> newC \<longrightarrow> getC r ?m' = getC r m" by (simp add: getC_setC)
  show ?thesis
    apply (rule exI [of _ ?m'])
    apply (rule exI [of _ newC])
    apply (rule exI [of _ ?better])
    apply (simp only: 3)
    apply (intro conjI)
             apply (rule run)
            apply (rule k)
           apply (rule n)
          apply (rule d)
         apply (rule 1)
        apply (rule t(1))
       apply (rule 2)
      apply (rule refl)
     apply (rule 4)
    apply (rule 5)
    done
qed

text \<open>A Mouse of age 5 in the cage becomes a BetterMouse of age 3.\<close>

theorem applySubstance_normal_to_better_witness:
  "reachable (mouse_in_cage 5) \<and> ''Cage'' \<noteq> ''Freedom''
   \<and> pickContainer ''Cage'' ''M'' = Some RefCageMouse
   \<and> (0::int) \<le> 0 \<and> 0 < size_c (getC RefCageMouse (mouse_in_cage 5))
   \<and> isNormal (getC RefCageMouse (mouse_in_cage 5) ! nat 0)
   \<and> 0 \<le> sint (daysLived (getC RefCageMouse (mouse_in_cage 5) ! nat 0))
   \<and> sint (daysLived (getC RefCageMouse (mouse_in_cage 5) ! nat 0)) < 2147483647
   \<and> (\<exists>m' newC better.
           handleApplySubstance (mouse_in_cage 5) ''Cage'' ''M'' 0 = (m', [])
         \<and> kind better = betterKind (kind (getC RefCageMouse (mouse_in_cage 5) ! nat 0))
         \<and> name better = name (getC RefCageMouse (mouse_in_cage 5) ! nat 0)
         \<and> sint (daysLived better)
             = \<lceil>real_of_int (sint (daysLived (getC RefCageMouse (mouse_in_cage 5) ! nat 0))) / 2\<rceil>
         \<and> isBetter better
         \<and> betterRef RefCageMouse = Some newC
         \<and> getC RefCageMouse m' = erase_at (nat 0) (getC RefCageMouse (mouse_in_cage 5))
         \<and> getC newC m' = add (getC newC (mouse_in_cage 5)) better
         \<and> mset (getC newC m') = mset (getC newC (mouse_in_cage 5)) + {#better#}
         \<and> (\<forall>r. r \<noteq> RefCageMouse \<and> r \<noteq> newC \<longrightarrow> getC r m' = getC r (mouse_in_cage 5)))
   \<and> handleApplySubstance (mouse_in_cage 5) ''Cage'' ''M'' 0
       = (init\<lparr>cageBetterMouse := [\<lparr>kind = BetterMouse, name = ''Jerry'', daysLived = 3\<rparr>]\<rparr>, [])"
proof -
  have h1: "reachable (mouse_in_cage 5)" by (rule reachable_examples)
  have h2: "''Cage'' \<noteq> ''Freedom''" by simp
  have h3: "pickContainer ''Cage'' ''M'' = Some RefCageMouse" by (simp add: pickContainer_def)
  have h4: "(0::int) \<le> 0" by simp
  have h5: "0 < size_c (getC RefCageMouse (mouse_in_cage 5))"
    by (simp add: mouse_in_cage_eq size_c_def)
  have h6: "isNormal (getC RefCageMouse (mouse_in_cage 5) ! nat 0)"
    by (simp add: mouse_in_cage_eq isNormal_def)
  have h7: "0 \<le> sint (daysLived (getC RefCageMouse (mouse_in_cage 5) ! nat 0))"
    by (simp add: mouse_in_cage_eq)
  have h8: "sint (daysLived (getC RefCageMouse (mouse_in_cage 5) ! nat 0)) < 2147483647"
    by (simp add: mouse_in_cage_eq)
  have v: "handleApplySubstance (mouse_in_cage 5) ''Cage'' ''M'' 0
       = (init\<lparr>cageBetterMouse := [\<lparr>kind = BetterMouse, name = ''Jerry'', daysLived = 3\<rparr>]\<rparr>, [])"
    by (simp add: mouse_in_cage_eq handler_defs)
  show ?thesis
    by (intro conjI h1 h2 h3 h4 h5 h6 h7 h8 v
        applySubstance_normal_to_better [OF h1 h2 h3 h4 h5 h6 h7 h8])
qed

text \<open>
  The age is computed as \<open>(a + 1) / 2\<close> in the arithmetic of a C++ \<open>int\<close>: the quotient is
  rounded towards zero and the sum wraps around. \<open>CREATE M Jerry IN Cage -2\<close> is accepted,
  and applying the substance gives age 0, while \<open>\<lceil>-2 / 2\<rceil>\<close> is \<open>-1\<close>. At the age
  2147483647 the sum wraps and the result is \<open>-1073741824\<close>, while \<open>\<lceil>2147483647 / 2\<rceil>\<close> is
  1073741824. So the claim does not hold for every age.
\<close>

theorem applySubstance_negative_age_counterexample:
  "cageMouse (mouse_in_cage (- 2)) = [\<lparr>kind = Mouse, name = ''Jerry'', daysLived = - 2\<rparr>]
   \<and> sint (- 2 :: cpp_int) = - 2
   \<and> handleApplySubstance (mouse_in_cage (- 2)) ''Cage'' ''M'' 0
       = (init\<lparr>cageBetterMouse := [\<lparr>kind = BetterMouse, name = ''Jerry'', daysLived = 0\<rparr>]\<rparr>, [])
   \<and> \<lceil>real_of_int (- 2) / 2\<rceil> = (- 1 :: int)
   \<and> sint (daysLived (hd (cageBetterMouse
         (fst (handleApplySubstance (mouse_in_cage (- 2)) ''Cage'' ''M'' 0)))))
       \<noteq> \<lceil>real_of_int (sint (daysLived (hd (cageMouse (mouse_in_cage (- 2)))))) / 2\<rceil>
   \<and> cageMouse (mouse_in_cage 2147483647)
       = [\<lparr>kind = Mouse, name = ''Jerry'', daysLived = 2147483647\<rparr>]
   \<and> sint (2147483647 :: cpp_int) = 2147483647
   \<and> sint (daysLived (hd (cageBetterMouse
         (fst (handleApplySubstance (mouse_in_cage 2147483647) ''Cage'' ''M'' 0)))))
       = - 1073741824
   \<and> \<lceil>real_of_int 2147483647 / 2\<rceil> = (1073741824 :: int)"
proof -
  have a: "\<lceil>real_of_int (- 2) / 2\<rceil> = (- 1 :: int)"
    using ceiling_divide_eq_div [of "- 2" 2] by simp
  have b: "\<lceil>real_of_int 2147483647 / 2\<rceil> = (1073741824 :: int)"
    using ceiling_divide_eq_div [of 2147483647 2] by simp
  show ?thesis using a b by (simp add: mouse_in_cage_eq handler_defs)
qed

subsection \<open>C2: Better to Monster\<close>

text \<open>
  C2. Let a Better animal stand at a valid index of the container that a habitat other
  than Freedom and a type code pick. Then \<open>handleApplySubstance\<close> prints one death line
  for each of the other animals of that container and for nothing else, leaves that
  container empty, and adds a Monster with the animal's name and age 1 to Freedom; no
  other container changes.
\<close>

theorem monster_birth_purges_container:
  assumes "cont \<noteq> ''Freedom''" and "pickContainer cont type = Some c"
    and "0 \<le> pos" and "pos < size_c (getC c m)" and "isBetter (getC c m ! nat pos)"
  shows "\<exists>m' others.
           handleApplySubstance m cont type pos = (m', map (\<lambda>a. HasDied (name a)) others)
         \<and> mset others = mset (getC c m) - {#getC c m ! nat pos#}
         \<and> length others = length (getC c m) - 1
         \<and> getC c m' = []
         \<and> freedom m' = add (freedom m) \<lparr>kind = Monster, name = name (getC c m ! nat pos), daysLived = 1\<rparr>
         \<and> mset (freedom m') = mset (freedom m) + {#\<lparr>kind = Monster, name = name (getC c m ! nat pos), daysLived = 1\<rparr>#}
         \<and> c \<noteq> RefFreedom
         \<and> (\<forall>r. r \<noteq> c \<and> r \<noteq> RefFreedom \<longrightarrow> getC r m' = getC r m)"
proof -
  let ?xs = "getC c m"
  let ?mon = "\<lparr>kind = Monster, name = name (?xs ! nat pos), daysLived = 1\<rparr>"
  let ?others = "update (erase_at (nat pos) ?xs)"
  let ?m' = "(setC c [] m)\<lparr>freedom := add (freedom m) ?mon\<rparr>"
  have i: "nat pos < length ?xs" using assms(3,4) by (simp add: size_c_def)
  have cf: "c \<noteq> RefFreedom" using assms(1,2) by (rule pick_not_freedom)
  have run: "handleApplySubstance m cont type pos = (?m', map (\<lambda>a. HasDied (name a)) ?others)"
    unfolding apply_better [OF assms] Let_def freedom_setC [OF cf] MonsterOf_def ..
  have g: "getC r ?m' = (if r = RefFreedom then add (freedom m) ?mon else if r = c then [] else getC r m)" for r
    by (simp only: getC_freedom_upd getC_setC)
  have 1: "mset ?others = mset ?xs - {#?xs ! nat pos#}"
    by (simp only: mset_update mset_erase_at [OF i])
  have 2: "length ?others = length ?xs - 1"
    by (simp only: length_update length_erase_at [OF i])
  have 3: "getC c ?m' = []" using cf by (simp only: g if_False if_True refl)
  have 4: "freedom ?m' = add (freedom m) ?mon" by simp
  have 5: "mset (add (freedom m) ?mon) = mset (freedom m) + {#?mon#}"
    by (simp add: add_def mset_update)
  have 6: "\<forall>r. r \<noteq> c \<and> r \<noteq> RefFreedom \<longrightarrow> getC r ?m' = getC r m"
    by (simp only: g) simp
  show ?thesis
    apply (rule exI [of _ ?m'])
    apply (rule exI [of _ ?others])
    apply (intro conjI)
           apply (rule run)
          apply (rule 1)
         apply (rule 2)
        apply (rule 3)
       apply (rule 4)
      apply (simp only: 4 5)
     apply (rule cf)
    apply (rule 6)
    done
qed

text \<open>
  Nemo and Dory, both BetterFish, share the aquarium; the substance is applied to Nemo.
  Dory dies, the aquarium is empty and the Monster Nemo is alone in Freedom.
\<close>

theorem monster_birth_purges_container_witness:
  "''Aquarium'' \<noteq> ''Freedom''
   \<and> pickContainer ''Aquarium'' ''BF'' = Some RefAquariumBetterFish
   \<and> (0::int) \<le> 0 \<and> 0 < size_c (getC RefAquariumBetterFish two_better_fish)
   \<and> isBetter (getC RefAquariumBetterFish two_better_fish ! nat 0)
   \<and> (\<exists>m' others.
           handleApplySubstance two_better_fish ''Aquarium'' ''BF'' 0
             = (m', map (\<lambda>a. HasDied (name a)) others)
         \<and> mset others = mset (getC RefAquariumBetterFish two_better_fish)
                          - {#getC RefAquariumBetterFish two_better_fish ! nat 0#}
         \<and> length others = length (getC RefAquariumBetterFish two_better_fish) - 1
         \<and> getC RefAquariumBetterFish m' = []
         \<and> freedom m' = add (freedom two_better_fish)
             \<lparr>kind = Monster, name = name (getC RefAquariumBetterFish two_better_fish ! nat 0), daysLived = 1\<rparr>
         \<and> mset (freedom m') = mset (freedom two_better_fish)
             + {#\<lparr>kind = Monster, name = name (getC RefAquariumBetterFish two_better_fish ! nat 0), daysLived = 1\<rparr>#}
         \<and> RefAquariumBetterFish \<noteq> RefFreedom
         \<and> (\<forall>r. r \<noteq> RefAquariumBetterFish \<and> r \<noteq> RefFreedom \<longrightarrow> getC r m' = getC r two_better_fish))
   \<and> handleApplySubstance two_better_fish ''Aquarium'' ''BF'' 0
       = (init\<lparr>freedom := [\<lparr>kind = Monster, name = ''Nemo'', daysLived = 1\<rparr>]\<rparr>, [HasDied ''Dory''])"
proof -
  have h1: "''Aquarium'' \<noteq> ''Freedom''" by simp
  have h2: "pickContainer ''Aquarium'' ''BF'' = Some RefAquariumBetterFish"
    by (simp add: pickContainer_def)
  have h3: "(0::int) \<le> 0" by simp
  have h4: "0 < size_c (getC RefAquariumBetterFish two_better_fish)"
    by (simp add: two_better_fish_eq size_c_def)
  have h5: "isBetter (getC RefAquariumBetterFish two_better_fish ! nat 0)"
    by (simp add: two_better_fish_eq isBetter_def)
  have v: "handleApplySubstance two_better_fish ''Aquarium'' ''BF'' 0
       = (init\<lparr>freedom := [\<lparr>kind = Monster, name = ''Nemo'', daysLived = 1\<rparr>]\<rparr>, [HasDied ''Dory''])"
    by (simp add: two_better_fish_eq handler_defs)
  show ?thesis
    by (intro conjI h1 h2 h3 h4 h5 v monster_birth_purges_container [OF h1 h2 h3 h4 h5])
qed

subsection \<open>C3: applying and then removing the substance\<close>

text \<open>
  C3, for ages from 0 to 2147483646. In a state the program can reach, applying the
  substance to a Normal animal of such an age \<open>a\<close> puts a Better animal of age
  \<open>\<lceil>a / 2\<rceil>\<close> into the Better container, where it stands at some valid index; and
  removing the substance at any index where it stands takes it out again and adds to the
  original container an animal of the original class and name with age \<open>2 * \<lceil>a / 2\<rceil>\<close>.
  That age is \<open>a\<close> when \<open>a\<close> is even and \<open>a + 1\<close> when \<open>a\<close> is odd.
\<close>

theorem substance_round_trip:
  assumes "reachable m" and "cont \<noteq> ''Freedom''" and "pickContainer cont type = Some c"
    and "0 \<le> pos" and "pos < size_c (getC c m)"
    and "isNormal (getC c m ! nat pos)"
    and "0 \<le> sint (daysLived (getC c m ! nat pos))"
    and "sint (daysLived (getC c m ! nat pos)) < 2147483647"
  shows "\<exists>m1 newC better.
           handleApplySubstance m cont type pos = (m1, [])
         \<and> kind better = betterKind (kind (getC c m ! nat pos))
         \<and> name better = name (getC c m ! nat pos)
         \<and> sint (daysLived better) = \<lceil>real_of_int (sint (daysLived (getC c m ! nat pos))) / 2\<rceil>
         \<and> isBetter better
         \<and> betterRef c = Some newC
         \<and> (\<exists>i. 0 \<le> i \<and> i < size_c (getC newC m1) \<and> getC newC m1 ! nat i = better)
         \<and> (\<forall>i. 0 \<le> i \<and> i < size_c (getC newC m1) \<and> getC newC m1 ! nat i = better \<longrightarrow>
              (\<exists>m2 normal.
                   handleRemoveSubstance m1 cont (getTypeCode (kind better)) i = (m2, [])
                 \<and> getC newC m2 = erase_at (nat i) (getC newC m1)
                 \<and> getC c m2 = add (getC c m1) normal
                 \<and> kind normal = kind (getC c m ! nat pos)
                 \<and> name normal = name (getC c m ! nat pos)
                 \<and> sint (daysLived normal)
                     = 2 * \<lceil>real_of_int (sint (daysLived (getC c m ! nat pos))) / 2\<rceil>))
         \<and> 2 * \<lceil>real_of_int (sint (daysLived (getC c m ! nat pos))) / 2\<rceil>
             = (if even (sint (daysLived (getC c m ! nat pos)))
                then sint (daysLived (getC c m ! nat pos))
                else sint (daysLived (getC c m ! nat pos)) + 1)"
proof -
  let ?xs = "getC c m"
  let ?old = "?xs ! nat pos"
  let ?a = "sint (daysLived ?old)"
  let ?h = "\<lceil>real_of_int ?a / 2\<rceil>"
  let ?better = "BetterOf (betterKind (kind ?old)) ?old"
  have co: "consistent m" using assms(1) by (rule reachable_consistent)
  have nk: "isNormalK (kind ?old)" using assms(6) by (simp add: isNormal_def)
  obtain newC where t: "betterRef c = Some newC" "newC \<noteq> c"
    "pickContainer cont (getTypeCode (betterKind (kind ?old))) = Some newC"
    and run: "handleApplySubstance m cont type pos
               = (setC newC (add (getC newC m) ?better) (setC c (erase_at (nat pos) ?xs) m), [])"
    using apply_normal_result [OF co assms(2-6)] by blast
  let ?m1 = "setC newC (add (getC newC m) ?better) (setC c (erase_at (nat pos) ?xs) m)"
  let ?ys = "getC newC ?m1"
  have co1: "consistent ?m1"
    using consistent_handleApplySubstance [OF co, of cont type pos] by (simp add: run)
  have k: "kind ?better = betterKind (kind ?old)" and n: "name ?better = name ?old"
    by (simp_all add: BetterOf_def)
  have d: "sint (daysLived ?better) = ?h"
    unfolding BetterOf_def using cpp_div_ceiling(2) [OF assms(7,8)] by simp
  have hb: "0 \<le> ?h" "?h < 1073741824"
    unfolding half_up using assms(7,8) by simp_all
  have 1: "isBetter ?better" using nk by (simp add: isBetter_def k betterKind_better)
  have ys: "?ys = add (getC newC m) ?better" by (simp add: getC_setC)
  have "?better \<in> set (add (getC newC m) ?better)" by (simp add: add_def set_update)
  then have "?better \<in> set ?ys" by (simp only: ys)
  then obtain j where j: "j < length ?ys" "?ys ! j = ?better" by (auto simp: in_set_conv_nth)
  have 2: "\<exists>i. 0 \<le> i \<and> i < size_c ?ys \<and> ?ys ! nat i = ?better"
    using j by (intro exI [of _ "int j"]) (simp add: size_c_def)
  have 3: "\<exists>m2 normal.
                   handleRemoveSubstance ?m1 cont (getTypeCode (kind ?better)) i = (m2, [])
                 \<and> getC newC m2 = erase_at (nat i) ?ys
                 \<and> getC c m2 = add (getC c ?m1) normal
                 \<and> kind normal = kind ?old
                 \<and> name normal = name ?old
                 \<and> sint (daysLived normal) = 2 * ?h"
    if i: "0 \<le> i" "i < size_c ?ys" "?ys ! nat i = ?better" for i
  proof -
    let ?normal = "\<lparr>kind = normalKind (kind (?ys ! nat i)), name = name (?ys ! nat i),
                daysLived = daysLived (?ys ! nat i) * 2\<rparr>"
    have pc': "pickContainer cont (getTypeCode (kind ?better)) = Some newC" using t(3) k by simp
    have b': "isBetter (?ys ! nat i)" using i(3) 1 by simp
    obtain c' where r: "betterRef c' = Some newC" "c' \<noteq> newC"
      and run2: "handleRemoveSubstance ?m1 cont (getTypeCode (kind ?better)) i
        = (setC c' (add (getC c' ?m1) ?normal) (setC newC (erase_at (nat i) ?ys) ?m1), [])"
      using remove_better_result [OF co1 assms(2) pc' i(1,2) b'] by blast
    have cc: "c' = c" using r(1) t(1) by (rule betterRef_inj)
    let ?m2 = "setC c (add (getC c ?m1) ?normal) (setC newC (erase_at (nat i) ?ys) ?m1)"
    have run2': "handleRemoveSubstance ?m1 cont (getTypeCode (kind ?better)) i = (?m2, [])"
      using run2 unfolding cc .
    have a: "getC newC ?m2 = erase_at (nat i) ?ys" using t(2) by (simp add: getC_setC)
    have b: "getC c ?m2 = add (getC c ?m1) ?normal" by (simp add: getC_setC)
    have kn: "kind ?normal = kind ?old" using nk by (simp add: i(3) k normalKind_betterKind)
    have nn: "name ?normal = name ?old" by (simp add: i(3) n)
    have "sint (daysLived ?better * 2) = 2 * sint (daysLived ?better)"
      using hb by (intro sint_double) (simp_all add: d)
    then have dn: "sint (daysLived ?normal) = 2 * ?h" by (simp add: i(3) d)
    show ?thesis using run2' a b kn nn dn by blast
  qed
  have 4: "2 * ?h = (if even ?a then ?a else ?a + 1)"
    by (rule twice_ceiling_half)
  show ?thesis
    apply (rule exI [of _ ?m1])
    apply (rule exI [of _ newC])
    apply (rule exI [of _ ?better])
    apply (intro conjI allI impI)
            apply (rule run)
           apply (rule k)
          apply (rule n)
         apply (rule d)
        apply (rule 1)
       apply (rule t(1))
      apply (rule 2)
     apply (erule conjE)+
     apply (rule 3; assumption)
    apply (rule 4)
    done
qed

text \<open>A Mouse of age 5 comes back from the round trip with age 6.\<close>

theorem substance_round_trip_witness:
  "reachable (mouse_in_cage 5) \<and> ''Cage'' \<noteq> ''Freedom''
   \<and> pickContainer ''Cage'' ''M'' = Some RefCageMouse
   \<and> (0::int) \<le> 0 \<and> 0 < size_c (getC RefCageMouse (mouse_in_cage 5))
   \<and> isNormal (getC RefCageMouse (mouse_in_cage 5) ! nat 0)
   \<and> 0 \<le> sint (daysLived (getC RefCageMouse (mouse_in_cage 5) ! nat 0))
   \<and> sint (daysLived (getC RefCageMouse (mouse_in_cage 5) ! nat 0)) < 2147483647
   \<and> (\<exists>m1 newC better.
           handleApplySubstance (mouse_in_cage 5) ''Cage'' ''M'' 0 = (m1, [])
         \<and> kind better = betterKind (kind (getC RefCageMouse (mouse_in_cage 5) ! nat 0))
         \<and> name better = name (getC RefCageMouse (mouse_in_cage 5) ! nat 0)
         \<and> sint (daysLived better)
             = \<lceil>real_of_int (sint (daysLived (getC RefCageMouse (mouse_in_cage 5) ! nat 0))) / 2\<rceil>
         \<and> isBetter better
         \<and> betterRef RefCageMouse = Some newC
         \<and> (\<exists>i. 0 \<le> i \<and> i < size_c (getC newC m1) \<and> getC newC m1 ! nat i = better)
         \<and> (\<forall>i. 0 \<le> i \<and> i < size_c (getC newC m1) \<and> getC newC m1 ! nat i = better \<longrightarrow>
              (\<exists>m2 normal.
                   handleRemoveSubstance m1 ''Cage'' (getTypeCode (kind better)) i = (m2, [])
                 \<and> getC newC m2 = erase_at (nat i) (getC newC m1)
                 \<and> getC RefCageMouse m2 = add (getC RefCageMouse m1) normal
                 \<and> kind normal = kind (getC RefCageMouse (mouse_in_cage 5) ! nat 0)
                 \<and> name normal = name (getC RefCageMouse (mouse_in_cage 5) ! nat 0)
                 \<and> sint (daysLived normal)
                     = 2 * \<lceil>real_of_int (sint (daysLived (getC RefCageMouse (mouse_in_cage 5) ! nat 0))) / 2\<rceil>))
         \<and> 2 * \<lceil>real_of_int (sint (daysLived (getC RefCageMouse (mouse_in_cage 5) ! nat 0))) / 2\<rceil>
             = (if even (sint (daysLived (getC RefCageMouse (mouse_in_cage 5) ! nat 0)))
                then sint (daysLived (getC RefCageMouse (mouse_in_cage 5) ! nat 0))
                else sint (daysLived (getC RefCageMouse (mouse_in_cage 5) ! nat 0)) + 1))
   \<and> handleRemoveSubstance (fst (handleApplySubstance (mouse_in_cage 5) ''Cage'' ''M'' 0)) ''Cage'' ''BM'' 0
       = (mouse_in_cage 6, [])"
proof -
  have h1: "reachable (mouse_in_cage 5)" by (rule reachable_examples)
  have h2: "''Cage'' \<noteq> ''Freedom''" by simp
  have h3: "pickContainer ''Cage'' ''M'' = Some RefCageMouse" by (simp add: pickContainer_def)
  have h4: "(0::int) \<le> 0" by simp
  have h5: "0 < size_c (getC RefCageMouse (mouse_in_cage 5))"
    by (simp add: mouse_in_cage_eq size_c_def)
  have h6: "isNormal (getC RefCageMouse (mouse_in_cage 5) ! nat 0)"
    by (simp add: mouse_in_cage_eq isNormal_def)
  have h7: "0 \<le> sint (daysLived (getC RefCageMouse (mouse_in_cage 5) ! nat 0))"
    by (simp add: mouse_in_cage_eq)
  have h8: "sint (daysLived (getC RefCageMouse (mouse_in_cage 5) ! nat 0)) < 2147483647"
    by (simp add: mouse_in_cage_eq)
  have v: "handleRemoveSubstance (fst (handleApplySubstance (mouse_in_cage 5) ''Cage'' ''M'' 0)) ''Cage'' ''BM'' 0
       = (mouse_in_cage 6, [])"
    by (simp add: mouse_in_cage_eq handler_defs)
  show ?thesis
    by (intro conjI h1 h2 h3 h4 h5 h6 h7 h8 v substance_round_trip [OF h1 h2 h3 h4 h5 h6 h7 h8])
qed

text \<open>
  As for C1, the age \<open>-2\<close> is accepted by \<open>CREATE\<close>. It is even, and the round trip gives
  the age 0: neither the age the animal had nor \<open>2 * \<lceil>-2 / 2\<rceil> = -2\<close>. At the age
  2147483647 the sum \<open>a + 1\<close> and then the product wrap around, and the round trip gives
  \<open>-2147483648\<close>, not \<open>2 * \<lceil>2147483647 / 2\<rceil> = 2147483648\<close>.
\<close>

theorem round_trip_negative_age_counterexample:
  "cageMouse (mouse_in_cage (- 2)) = [\<lparr>kind = Mouse, name = ''Jerry'', daysLived = - 2\<rparr>]
   \<and> sint (- 2 :: cpp_int) = - 2
   \<and> even (- 2 :: int)
   \<and> handleRemoveSubstance (fst (handleApplySubstance (mouse_in_cage (- 2)) ''Cage'' ''M'' 0)) ''Cage'' ''BM'' 0
       = (mouse_in_cage 0, [])
   \<and> cageMouse (mouse_in_cage 0) = [\<lparr>kind = Mouse, name = ''Jerry'', daysLived = 0\<rparr>]
   \<and> 2 * \<lceil>real_of_int (- 2) / 2\<rceil> = (- 2 :: int)
   \<and> sint (daysLived (hd (cageMouse (fst (handleRemoveSubstance
         (fst (handleApplySubstance (mouse_in_cage (- 2)) ''Cage'' ''M'' 0)) ''Cage'' ''BM'' 0)))))
       \<noteq> 2 * \<lceil>real_of_int (sint (daysLived (hd (cageMouse (mouse_in_cage (- 2)))))) / 2\<rceil>
   \<and> sint (2147483647 :: cpp_int) = 2147483647
   \<and> sint (daysLived (hd (cageMouse (fst (handleRemoveSubstance
         (fst (handleApplySubstance (mouse_in_cage 2147483647) ''Cage'' ''M'' 0)) ''Cage'' ''BM'' 0)))))
       = - 2147483648
   \<and> 2 * \<lceil>real_of_int 2147483647 / 2\<rceil> = (2147483648 :: int)"
proof -
  have a: "\<lceil>real_of_int (- 2) / 2\<rceil> = (- 1 :: int)"
    using ceiling_divide_eq_div [of "- 2" 2] by simp
  have b: "\<lceil>real_of_int 2147483647 / 2\<rceil> = (1073741824 :: int)"
    using ceiling_divide_eq_div [of 2147483647 2] by simp
  show ?thesis using a b by (simp add: mouse_in_cage_eq handler_defs)
qed

subsection \<open>C4: the failures of applySubstance\<close>



subsection \<open>C5: a period\<close>

text \<open>
  C5, for ages below 2147483647. \<open>doPeriod\<close> leaves in every container the animals it
  held, each aged by \<open>incrementDay\<close>, without those that \<open>dies\<close> holds for at the new age
  (above 1 for a Monster, above 10 otherwise), sorted again; it prints one death line for
  each animal removed, container by container in the order of \<open>period_order\<close>.
  \<open>incrementDay\<close> adds 1 in the arithmetic of a C++ \<open>int\<close>: an age below 2147483647
  becomes exactly one more. A Mouse created at age 9 is alive at age 10 after one period,
  and is reported dead and removed by the second.
\<close>

theorem advancePeriod_ages_then_removes:
  "getC r (fst (doPeriod m)) = update (filter (\<lambda>a. \<not> dies a) (map incrementDay (getC r m)))
   \<and> snd (doPeriod m)
       = concat (map (\<lambda>r. map (\<lambda>a. HasDied (name a)) (filter dies (map incrementDay (getC r m))))
           period_order)
   \<and> incrementDay a = a\<lparr>daysLived := daysLived a + 1\<rparr>
   \<and> (sint (daysLived a) < 2147483647 \<longrightarrow>
        sint (daysLived (incrementDay a)) = sint (daysLived a) + 1)
   \<and> dies a = (if isMonster a then 1 < sint (daysLived a) else 10 < sint (daysLived a))
   \<and> exec init (Create ''M'' ''Jerry'' ''Cage'' 9)
       = (init\<lparr>cageMouse := [\<lparr>kind = Mouse, name = ''Jerry'', daysLived = 9\<rparr>]\<rparr>, [MyNameIs ''Jerry'' 9])
   \<and> exec (init\<lparr>cageMouse := [\<lparr>kind = Mouse, name = ''Jerry'', daysLived = 9\<rparr>]\<rparr>) Period
       = (init\<lparr>cageMouse := [\<lparr>kind = Mouse, name = ''Jerry'', daysLived = 10\<rparr>]\<rparr>, [])
   \<and> exec (init\<lparr>cageMouse := [\<lparr>kind = Mouse, name = ''Jerry'', daysLived = 10\<rparr>]\<rparr>) Period
       = (init, [HasDied ''Jerry''])"
proof -
  have 1: "getC r (fst (doPeriod m)) = update (filter (\<lambda>a. \<not> dies a) (map incrementDay (getC r m)))"
    by (simp add: doPeriod_container incrementDays_eq)
  have 2: "snd (doPeriod m)
       = concat (map (\<lambda>r. map (\<lambda>a. HasDied (name a)) (filter dies (map incrementDay (getC r m))))
           period_order)"
    by (simp add: doPeriod_output incrementDays_eq)
  have 3: "exec init (Create ''M'' ''Jerry'' ''Cage'' 9)
       = (init\<lparr>cageMouse := [\<lparr>kind = Mouse, name = ''Jerry'', daysLived = 9\<rparr>]\<rparr>, [MyNameIs ''Jerry'' 9])"
    by (simp add: handler_defs)
  have 4: "exec (init\<lparr>cageMouse := [\<lparr>kind = Mouse, name = ''Jerry'', daysLived = 9\<rparr>]\<rparr>) Period
       = (init\<lparr>cageMouse := [\<lparr>kind = Mouse, name = ''Jerry'', daysLived = 10\<rparr>]\<rparr>, [])"
    by (simp add: period_defs init_def update_sort_key isMonster_def)
  have 5: "exec (init\<lparr>cageMouse := [\<lparr>kind = Mouse, name = ''Jerry'', daysLived = 10\<rparr>]\<rparr>) Period
       = (init, [HasDied ''Jerry''])"
    by (simp add: period_defs init_def update_sort_key isMonster_def erase_at_def)
  have 6: "sint (daysLived a) < 2147483647 \<longrightarrow>
        sint (daysLived (incrementDay a)) = sint (daysLived a) + 1"
    by (simp add: incrementDay_def sint_succ)
  show ?thesis
    by (intro conjI 1 2 3 4 5 6) (simp_all add: incrementDay_def dies_def)
qed

text \<open>
  The Monster Nemo, alone in Freedom at age 1, is two days old after a period, which is
  above the limit of a Monster: it is reported dead and Freedom is empty.
\<close>

theorem advancePeriod_ages_then_removes_witness:
  "getC RefFreedom (fst (doPeriod (init\<lparr>freedom := [\<lparr>kind = Monster, name = ''Nemo'', daysLived = 1\<rparr>]\<rparr>)))
     = update (filter (\<lambda>a. \<not> dies a) (map incrementDay
         (getC RefFreedom (init\<lparr>freedom := [\<lparr>kind = Monster, name = ''Nemo'', daysLived = 1\<rparr>]\<rparr>))))
   \<and> sint (daysLived \<lparr>kind = Monster, name = ''Nemo'', daysLived = 1\<rparr>) < 2147483647
   \<and> sint (daysLived (incrementDay \<lparr>kind = Monster, name = ''Nemo'', daysLived = 1\<rparr>))
       = sint (daysLived \<lparr>kind = Monster, name = ''Nemo'', daysLived = 1\<rparr>) + 1
   \<and> dies (incrementDay \<lparr>kind = Monster, name = ''Nemo'', daysLived = 1\<rparr>)
   \<and> doPeriod (init\<lparr>freedom := [\<lparr>kind = Monster, name = ''Nemo'', daysLived = 1\<rparr>]\<rparr>)
       = (init, [HasDied ''Nemo''])"
proof -
  let ?m = "init\<lparr>freedom := [\<lparr>kind = Monster, name = ''Nemo'', daysLived = 1\<rparr>]\<rparr>"
  let ?a = "\<lparr>kind = Monster, name = ''Nemo'', daysLived = 1\<rparr>"
  note t = advancePeriod_ages_then_removes [where r = RefFreedom and m = ?m and a = ?a]
  note u = advancePeriod_ages_then_removes [where r = RefFreedom and m = ?m and a = "incrementDay ?a"]
  have h: "sint (daysLived ?a) < 2147483647" by simp
  have 1: "getC RefFreedom (fst (doPeriod ?m))
     = update (filter (\<lambda>a. \<not> dies a) (map incrementDay (getC RefFreedom ?m)))"
    using t by blast
  have 2: "sint (daysLived (incrementDay ?a)) = sint (daysLived ?a) + 1"
    using t h by blast
  have "dies (incrementDay ?a)
      = (if isMonster (incrementDay ?a) then 1 < sint (daysLived (incrementDay ?a))
         else 10 < sint (daysLived (incrementDay ?a)))"
    using u by blast
  then have 3: "dies (incrementDay ?a)" by (simp add: 2 isMonster_def incrementDay_def)
  have 4: "doPeriod ?m = (init, [HasDied ''Nemo''])"
    by (simp add: period_defs init_def update_sort_key isMonster_def erase_at_def)
  show ?thesis by (intro conjI 1 h 2 3 4)
qed

text \<open>
  \<open>CREATE M Jerry IN Cage 2147483647\<close> is accepted. In the period that follows the age
  wraps around to \<open>-2147483648\<close>: it has not grown by one, no death line is printed and
  the Mouse stays in the cage.
\<close>

theorem advancePeriod_wraps_counterexample:
  "cageMouse (mouse_in_cage 2147483647)
     = [\<lparr>kind = Mouse, name = ''Jerry'', daysLived = 2147483647\<rparr>]
   \<and> sint (2147483647 :: cpp_int) = 2147483647
   \<and> snd (exec (mouse_in_cage 2147483647) Period) = []
   \<and> length (cageMouse (fst (exec (mouse_in_cage 2147483647) Period))) = 1
   \<and> sint (daysLived (hd (cageMouse (fst (exec (mouse_in_cage 2147483647) Period)))))
       = - 2147483648
   \<and> sint (daysLived (hd (cageMouse (fst (exec (mouse_in_cage 2147483647) Period)))))
       \<noteq> sint (daysLived (hd (cageMouse (mouse_in_cage 2147483647)))) + 1"
  by (simp add: mouse_in_cage_eq period_defs init_def update_sort_key isMonster_def erase_at_def)

subsection \<open>C6: attack\<close>

text \<open>
  C6. \<open>handleAttack\<close> on Freedom is rejected and changes nothing. On another habitat it
  prints \<open>Animal not found\<close> and changes nothing when no container is picked, when either
  index is out of bounds, or when the two indices are equal. With two valid and distinct
  indices it prints the attacker's line, removes from the container exactly the animal at
  the target index, and leaves every other container as it was; the attacker is still in
  the container, unchanged, and in a sorted container every remaining animal keeps its
  place in the order.
\<close>

theorem attack_removes_exactly_target:
  "(cont = ''Freedom'' \<longrightarrow>
      handleAttack m cont type pos1 pos2 = (m, [AnimalsCannotAttackInFreedom]))
   \<and> (cont \<noteq> ''Freedom'' \<and> pickContainer cont type = None \<longrightarrow>
      handleAttack m cont type pos1 pos2 = (m, [AnimalNotFound]))
   \<and> (cont \<noteq> ''Freedom'' \<and> pickContainer cont type = Some c
       \<and> (pos1 < 0 \<or> pos1 \<ge> size_c (getC c m) \<or> pos2 < 0 \<or> pos2 \<ge> size_c (getC c m)
          \<or> pos1 = pos2) \<longrightarrow>
      handleAttack m cont type pos1 pos2 = (m, [AnimalNotFound]))
   \<and> (cont \<noteq> ''Freedom'' \<and> pickContainer cont type = Some c
       \<and> 0 \<le> pos1 \<and> pos1 < size_c (getC c m) \<and> 0 \<le> pos2 \<and> pos2 < size_c (getC c m)
       \<and> pos1 \<noteq> pos2 \<longrightarrow>
      (\<exists>m'. handleAttack m cont type pos1 pos2
                = (m', [IsAttacking (getTypeName (kind (getC c m ! nat pos1)))])
           \<and> getC c m' = update (erase_at (nat pos2) (getC c m))
           \<and> mset (getC c m') = mset (getC c m) - {#getC c m ! nat pos2#}
           \<and> getC c m ! nat pos1 \<in> set (getC c m')
           \<and> (\<forall>r. r \<noteq> c \<longrightarrow> getC r m' = getC r m)
           \<and> (ordered (getC c m) \<longrightarrow>
                getC c m' = erase_at (nat pos2) (getC c m)
              \<and> getC c m' ! (if pos1 < pos2 then nat pos1 else nat pos1 - 1) = getC c m ! nat pos1)))"
  apply (intro conjI impI)
     apply (simp add: attack_freedom)
    apply (simp add: attack_no_container)
   apply (erule conjE)+
   apply (rule attack_bad_index; assumption)
  apply (erule conjE)+
  apply (rule attack_valid_result; assumption)
  done

text \<open>
  Polly and Tweety, two Birds of age 2, share the cage in this order. An attack in
  Freedom, in a cage for Fish and of Polly on herself are rejected; Polly's attack on
  Tweety leaves Polly alone in the cage.
\<close>

theorem attack_removes_exactly_target_witness:
  "handleAttack two_birds ''Freedom'' ''B'' 0 1 = (two_birds, [AnimalsCannotAttackInFreedom])
   \<and> ''Cage'' \<noteq> ''Freedom'' \<and> pickContainer ''Cage'' ''F'' = None
   \<and> handleAttack two_birds ''Cage'' ''F'' 0 1 = (two_birds, [AnimalNotFound])
   \<and> pickContainer ''Cage'' ''B'' = Some RefCageBird
   \<and> handleAttack two_birds ''Cage'' ''B'' 0 0 = (two_birds, [AnimalNotFound])
   \<and> 1 < size_c (getC RefCageBird two_birds)
   \<and> (\<exists>m'. handleAttack two_birds ''Cage'' ''B'' 0 1
                = (m', [IsAttacking (getTypeName (kind (getC RefCageBird two_birds ! nat 0)))])
           \<and> getC RefCageBird m' = update (erase_at (nat 1) (getC RefCageBird two_birds))
           \<and> mset (getC RefCageBird m')
               = mset (getC RefCageBird two_birds) - {#getC RefCageBird two_birds ! nat 1#}
           \<and> getC RefCageBird two_birds ! nat 0 \<in> set (getC RefCageBird m'))
   \<and> handleAttack two_birds ''Cage'' ''B'' 0 1
       = (init\<lparr>cageBird := [\<lparr>kind = Bird, name = ''Polly'', daysLived = 2\<rparr>]\<rparr>, [IsAttacking ''Bird''])"
proof -
  have nf: "''Cage'' \<noteq> ''Freedom''" by simp
  have p0: "pickContainer ''Cage'' ''F'' = None" by (simp add: pickContainer_def)
  have p1: "pickContainer ''Cage'' ''B'' = Some RefCageBird" by (simp add: pickContainer_def)
  have sz: "1 < size_c (getC RefCageBird two_birds)" by (simp add: two_birds_eq size_c_def)
  have v: "handleAttack two_birds ''Cage'' ''B'' 0 1
       = (init\<lparr>cageBird := [\<lparr>kind = Bird, name = ''Polly'', daysLived = 2\<rparr>]\<rparr>, [IsAttacking ''Bird''])"
    by (simp add: two_birds_eq handler_defs)
  have a: "handleAttack two_birds ''Freedom'' ''B'' 0 1 = (two_birds, [AnimalsCannotAttackInFreedom])"
    using attack_removes_exactly_target [of "''Freedom''" two_birds "''B''" 0 1] by simp
  have b: "handleAttack two_birds ''Cage'' ''F'' 0 1 = (two_birds, [AnimalNotFound])"
    using attack_removes_exactly_target [of "''Cage''" two_birds "''F''" 0 1] nf p0 by simp
  have c: "handleAttack two_birds ''Cage'' ''B'' 0 0 = (two_birds, [AnimalNotFound])"
    using attack_removes_exactly_target [of "''Cage''" two_birds "''B''" 0 0 RefCageBird] nf p1
    by simp
  have d: "\<exists>m'. handleAttack two_birds ''Cage'' ''B'' 0 1
                = (m', [IsAttacking (getTypeName (kind (getC RefCageBird two_birds ! nat 0)))])
           \<and> getC RefCageBird m' = update (erase_at (nat 1) (getC RefCageBird two_birds))
           \<and> mset (getC RefCageBird m')
               = mset (getC RefCageBird two_birds) - {#getC RefCageBird two_birds ! nat 1#}
           \<and> getC RefCageBird two_birds ! nat 0 \<in> set (getC RefCageBird m')"
  proof -
    have pre: "''Cage'' \<noteq> ''Freedom'' \<and> pickContainer ''Cage'' ''B'' = Some RefCageBird
       \<and> (0::int) \<le> 0 \<and> 0 < size_c (getC RefCageBird two_birds)
       \<and> (0::int) \<le> 1 \<and> 1 < size_c (getC RefCageBird two_birds) \<and> (0::int) \<noteq> 1"
      using nf p1 sz by simp
    from attack_removes_exactly_target [of "''Cage''" two_birds "''B''" 0 1 RefCageBird] pre
    show ?thesis by blast
  qed
  show ?thesis by (intro conjI a nf p0 b p1 c sz d v)
qed

subsection \<open>C7: containers stay sorted\<close>

text \<open>
  C7. In every state the program can reach, and so after every command run from such a
  state, each container is sorted ascending by days lived, ties broken by name ascending;
  that is the order of the comparator \<open>SortAnimals\<close>. The sort that restores the order
  after every change is stable: animals equal in both days lived and name keep their
  relative order.
\<close>

theorem containers_stay_sorted:
  "(reachable m \<longrightarrow>
      ordered (getC r m)
    \<and> sorted_wrt (\<lambda>a b. \<not> SortAnimals b a) (getC r m)
    \<and> ordered (getC r (fst (exec m cmd))))
   \<and> filter (\<lambda>a. daysLived a = d \<and> name a = n) (update xs)
       = filter (\<lambda>a. daysLived a = d \<and> name a = n) xs"
proof -
  have o: "ordered (getC r m')" if "reachable m'" for m'
    using consistent_getC [OF reachable_consistent [OF that], of r] by (simp add: ok_def)
  have c: "(\<lambda>a b. \<not> SortAnimals b a)
      = (\<lambda>a b. sint (daysLived a) < sint (daysLived b)
            \<or> (daysLived a = daysLived b \<and> name a \<le> name b))"
  proof (intro ext)
    fix a b
    show "(\<not> SortAnimals b a)
        = (sint (daysLived a) < sint (daysLived b)
            \<or> (daysLived a = daysLived b \<and> name a \<le> name b))"
    proof (cases "daysLived a = daysLived b")
      case True
      then show ?thesis by (simp add: SortAnimals_def not_less)
    next
      case False
      then have "sint (daysLived a) \<noteq> sint (daysLived b)" by (simp add: sint_eq_iff)
      then show ?thesis using False by (auto simp: SortAnimals_def)
    qed
  qed
  have 1: "ordered (getC r m)" if "reachable m" using that by (rule o)
  have 2: "sorted_wrt (\<lambda>a b. \<not> SortAnimals b a) (getC r m)" if "reachable m"
    using o [OF that] unfolding c ordered_def .
  have 3: "ordered (getC r (fst (exec m cmd)))" if "reachable m"
    using that by (intro o reachable_exec)
  have 4: "filter (\<lambda>a. daysLived a = d \<and> name a = n) (update xs)
       = filter (\<lambda>a. daysLived a = d \<and> name a = n) xs"
    using update_stable [of "(sint d, n)" xs] by (simp add: sort_key_of_def sint_eq_iff)
  show ?thesis using 1 2 3 4 by blast
qed

text \<open>
  Tweety was created before Polly, with the same age; the cage holds Polly first, and is
  still sorted after an attack. Two animals equal in age and name keep their order through
  the sort.
\<close>

theorem containers_stay_sorted_witness:
  "reachable two_birds
   \<and> ordered (getC RefCageBird two_birds)
   \<and> sorted_wrt (\<lambda>a b. \<not> SortAnimals b a) (getC RefCageBird two_birds)
   \<and> ordered (getC RefCageBird (fst (exec two_birds (Attack ''Cage'' ''B'' 1 0))))
   \<and> getC RefCageBird two_birds
       = [\<lparr>kind = Bird, name = ''Polly'', daysLived = 2\<rparr>,
          \<lparr>kind = Bird, name = ''Tweety'', daysLived = 2\<rparr>]
   \<and> filter (\<lambda>a. daysLived a = 2 \<and> name a = ''Polly'')
        (update [\<lparr>kind = Bird, name = ''Polly'', daysLived = 2\<rparr>,
                 \<lparr>kind = Fish, name = ''Polly'', daysLived = 2\<rparr>])
       = [\<lparr>kind = Bird, name = ''Polly'', daysLived = 2\<rparr>,
          \<lparr>kind = Fish, name = ''Polly'', daysLived = 2\<rparr>]"
proof -
  have r: "reachable two_birds" by (rule reachable_examples)
  note t = containers_stay_sorted [where m = two_birds and r = RefCageBird
      and cmd = "Attack ''Cage'' ''B'' 1 0" and d = 2 and n = "''Polly''"
      and xs = "[\<lparr>kind = Bird, name = ''Polly'', daysLived = 2\<rparr>,
        \<lparr>kind = Fish, name = ''Polly'', daysLived = 2\<rparr>]"]
  have 1: "ordered (getC RefCageBird two_birds)"
    and 2: "sorted_wrt (\<lambda>a b. \<not> SortAnimals b a) (getC RefCageBird two_birds)"
    and 3: "ordered (getC RefCageBird (fst (exec two_birds (Attack ''Cage'' ''B'' 1 0))))"
    using t r by blast+
  have 4: "getC RefCageBird two_birds
       = [\<lparr>kind = Bird, name = ''Polly'', daysLived = 2\<rparr>,
          \<lparr>kind = Bird, name = ''Tweety'', daysLived = 2\<rparr>]"
    by (simp add: two_birds_eq)
  have 5: "filter (\<lambda>a. daysLived a = 2 \<and> name a = ''Polly'')
        (update [\<lparr>kind = Bird, name = ''Polly'', daysLived = 2\<rparr>,
                 \<lparr>kind = Fish, name = ''Polly'', daysLived = 2\<rparr>])
       = [\<lparr>kind = Bird, name = ''Polly'', daysLived = 2\<rparr>,
          \<lparr>kind = Fish, name = ''Polly'', daysLived = 2\<rparr>]"
    using t by simp
  show ?thesis by (intro conjI r 1 2 3 4 5)
qed

subsection \<open>C8: Monsters live in Freedom only\<close>

text \<open>
  C8. In every state reachable from the initial manager by a sequence of commands, no
  container other than Freedom holds a Monster.
\<close>

theorem monsters_only_in_freedom:
  "reachable m \<Longrightarrow> r \<noteq> RefFreedom \<Longrightarrow> \<forall>a \<in> set (getC r m). \<not> isMonster a"
proof
  fix a
  assume r: "reachable m" and nf: "r \<noteq> RefFreedom" and a: "a \<in> set (getC r m)"
  have "ok r (getC r m)" using reachable_consistent [OF r] by (rule consistent_getC)
  then have "admits r (kind a)" using a by (simp add: ok_def list_all_iff)
  then have "kind a \<noteq> Monster" using nf by (rule admits_no_monster [rotated])
  then show "\<not> isMonster a" by (cases "kind a") (simp_all add: isMonster_def)
qed

text \<open>
  The run that makes a Monster: a Fish of age 4 in the aquarium, the substance applied
  twice. The Monster is in Freedom and every other container is empty.
\<close>

theorem monsters_only_in_freedom_witness:
  "reachable (fst (exec (fst (exec (fst (exec init
       (Create ''F'' ''Nemo'' ''Aquarium'' 4)))
       (ApplySubstance ''Aquarium'' ''F'' 0)))
       (ApplySubstance ''Aquarium'' ''BF'' 0)))
   \<and> RefAquariumBetterFish \<noteq> RefFreedom
   \<and> list_all (\<lambda>a. \<not> isMonster a) (getC RefAquariumBetterFish (fst (exec (fst (exec (fst (exec init
       (Create ''F'' ''Nemo'' ''Aquarium'' 4)))
       (ApplySubstance ''Aquarium'' ''F'' 0)))
       (ApplySubstance ''Aquarium'' ''BF'' 0))))
   \<and> fst (exec (fst (exec (fst (exec init
       (Create ''F'' ''Nemo'' ''Aquarium'' 4)))
       (ApplySubstance ''Aquarium'' ''F'' 0)))
       (ApplySubstance ''Aquarium'' ''BF'' 0))
     = init\<lparr>freedom := [\<lparr>kind = Monster, name = ''Nemo'', daysLived = 1\<rparr>]\<rparr>"
proof -
  let ?m = "fst (exec (fst (exec (fst (exec init
       (Create ''F'' ''Nemo'' ''Aquarium'' 4)))
       (ApplySubstance ''Aquarium'' ''F'' 0)))
       (ApplySubstance ''Aquarium'' ''BF'' 0))"
  have r: "reachable ?m" by (intro reachable.intros)
  have nf: "RefAquariumBetterFish \<noteq> RefFreedom" by simp
  have v: "?m = init\<lparr>freedom := [\<lparr>kind = Monster, name = ''Nemo'', daysLived = 1\<rparr>]\<rparr>"
    by (simp add: handler_defs)
  show ?thesis
    using monsters_only_in_freedom [OF r nf] r v by (simp add: list_all_iff)
qed

subsection \<open>C9: a rejected command changes nothing\<close>

text \<open>
  C9. Whenever a command prints a rejection line (\<open>Animal not found\<close>,
  \<open>Invalid substance removal\<close>, or one of the three lines for Freedom), the manager after
  the command is the manager before it.
\<close>

theorem failure_changes_nothing:
  "exec m cmd = (m', out) \<Longrightarrow> \<exists>l \<in> set out. is_failure l \<Longrightarrow> m' = m"
  using exec_outcomes [of m cmd] by auto

text \<open>Removing the substance from a Normal mouse is rejected and the mouse stays.\<close>

theorem failure_changes_nothing_witness:
  "snd (exec (fst (exec init (Create ''M'' ''Jerry'' ''Cage'' 3))) (RemoveSubstance ''Cage'' ''M'' 0))
     = [InvalidSubstanceRemoval]
   \<and> is_failure InvalidSubstanceRemoval
   \<and> fst (exec (fst (exec init (Create ''M'' ''Jerry'' ''Cage'' 3))) (RemoveSubstance ''Cage'' ''M'' 0))
     = fst (exec init (Create ''M'' ''Jerry'' ''Cage'' 3))
   \<and> cageMouse (fst (exec init (Create ''M'' ''Jerry'' ''Cage'' 3)))
     = [\<lparr>kind = Mouse, name = ''Jerry'', daysLived = 3\<rparr>]"
proof -
  let ?m0 = "fst (exec init (Create ''M'' ''Jerry'' ''Cage'' 3))"
  let ?cmd = "RemoveSubstance ''Cage'' ''M'' 0"
  have out: "snd (exec ?m0 ?cmd) = [InvalidSubstanceRemoval]" by (simp add: handler_defs)
  have e: "exec ?m0 ?cmd = (fst (exec ?m0 ?cmd), snd (exec ?m0 ?cmd))" by simp
  have f: "\<exists>l \<in> set (snd (exec ?m0 ?cmd)). is_failure l" using out by simp
  have "fst (exec ?m0 ?cmd) = ?m0" by (rule failure_changes_nothing [OF e f])
  moreover have "cageMouse ?m0 = [\<lparr>kind = Mouse, name = ''Jerry'', daysLived = 3\<rparr>]"
    by (simp add: handler_defs)
  ultimately show ?thesis using out by simp
qed

subsection \<open>C10: a create command for a habitat that does not take the species\<close>

text \<open>
  C10, for the type codes that name a class. When the type code is one of \<open>M\<close>, \<open>B\<close>, \<open>F\<close>,
  \<open>BM\<close>, \<open>BB\<close>, \<open>BF\<close> and the habitat is not Freedom and \<open>pickContainer\<close> finds no container
  for the pair, \<open>handleCreate\<close> prints the line of \<open>sayName\<close> for the new animal and nothing
  else, and returns the manager as it was: the animal is dropped and no rejection line is
  printed. For any other type code no animal is built, nothing is printed and the manager
  is as it was.
\<close>

theorem create_inadmissible_discards:
  "(type \<in> set [''M'', ''B'', ''F'', ''BM'', ''BB'', ''BF''] \<and> cont \<noteq> ''Freedom''
      \<and> pickContainer cont type = None
    \<longrightarrow> handleCreate m type n cont d = (m, [MyNameIs n (sint d)]))
   \<and> (type \<notin> set [''M'', ''B'', ''F'', ''BM'', ''BB'', ''BF'']
    \<longrightarrow> handleCreate m type n cont d = (m, []))"
proof (intro conjI impI)
  assume a: "type \<in> set [''M'', ''B'', ''F'', ''BM'', ''BB'', ''BF''] \<and> cont \<noteq> ''Freedom''
      \<and> pickContainer cont type = None"
  then obtain x where "makeAnimal type n d = Some x"
    by (auto simp: makeAnimal_def)
  then show "handleCreate m type n cont d = (m, [MyNameIs n (sint d)])"
    using a by (simp add: handleCreate_def sayName_def makeAnimal_fields)
next
  assume "type \<notin> set [''M'', ''B'', ''F'', ''BM'', ''BB'', ''BF'']"
  then have "makeAnimal type n d = None" by (simp add: makeAnimal_def)
  then show "handleCreate m type n cont d = (m, [])" by (simp add: handleCreate_def)
qed

text \<open>
  A Fish for a Cage, a Mouse for a habitat that does not exist, and a type code that names
  no class.
\<close>

theorem create_inadmissible_discards_witness:
  "''F'' \<in> set [''M'', ''B'', ''F'', ''BM'', ''BB'', ''BF'']
   \<and> ''Cage'' \<noteq> ''Freedom'' \<and> pickContainer ''Cage'' ''F'' = None
   \<and> handleCreate init ''F'' ''Nemo'' ''Cage'' 4 = (init, [MyNameIs ''Nemo'' 4])
   \<and> ''M'' \<in> set [''M'', ''B'', ''F'', ''BM'', ''BB'', ''BF'']
   \<and> ''Zoo'' \<noteq> ''Freedom'' \<and> pickContainer ''Zoo'' ''M'' = None
   \<and> handleCreate init ''M'' ''Jerry'' ''Zoo'' 1 = (init, [MyNameIs ''Jerry'' 1])
   \<and> ''X'' \<notin> set [''M'', ''B'', ''F'', ''BM'', ''BB'', ''BF'']
   \<and> handleCreate init ''X'' ''Rex'' ''Cage'' 1 = (init, [])"
proof -
  have a: "''F'' \<in> set [''M'', ''B'', ''F'', ''BM'', ''BB'', ''BF'']" by simp
  have b: "''Cage'' \<noteq> ''Freedom''" by simp
  have c: "pickContainer ''Cage'' ''F'' = None" by (simp add: pickContainer_def)
  have a': "''M'' \<in> set [''M'', ''B'', ''F'', ''BM'', ''BB'', ''BF'']" by simp
  have b': "''Zoo'' \<noteq> ''Freedom''" by simp
  have c': "pickContainer ''Zoo'' ''M'' = None" by (simp add: pickContainer_def)
  have x: "''X'' \<notin> set [''M'', ''B'', ''F'', ''BM'', ''BB'', ''BF'']" by simp
  have 1: "handleCreate init ''F'' ''Nemo'' ''Cage'' 4 = (init, [MyNameIs ''Nemo'' 4])"
    using create_inadmissible_discards [of "''F''" "''Cage''" init "''Nemo''" 4] a b c by simp
  have 2: "handleCreate init ''M'' ''Jerry'' ''Zoo'' 1 = (init, [MyNameIs ''Jerry'' 1])"
    using create_inadmissible_discards [of "''M''" "''Zoo''" init "''Jerry''" 1] a' b' c' by simp
  have 3: "handleCreate init ''X'' ''Rex'' ''Cage'' 1 = (init, [])"
    using create_inadmissible_discards [of "''X''" "''Cage''" init "''Rex''" 1] x by simp
  show ?thesis by (intro conjI a b c 1 a' b' c' 2 x 3)
qed

text \<open>
  \<open>CREATE X Rex IN Cage 1\<close> is a create command for which no container is picked. No
  animal is built for the code \<open>X\<close>, and the handler returns before \<open>sayName\<close>: no line
  is printed for Rex.
\<close>

theorem create_unknown_code_counterexample:
  "''Cage'' \<noteq> ''Freedom'' \<and> pickContainer ''Cage'' ''X'' = None
   \<and> handleCreate init ''X'' ''Rex'' ''Cage'' 1 = (init, [])
   \<and> snd (handleCreate init ''X'' ''Rex'' ''Cage'' 1) \<noteq> [MyNameIs ''Rex'' 1]"
  by (simp add: handleCreate_def makeAnimal_def pickContainer_def)

end
